theory Spec2Isabelle
  imports Main "HOL-Library.Monad_Syntax" "HOL-Library.Multiset"
begin

section \<open>Block Puzzle (3 pieces at a time): the grid engine of \<^verbatim>\<open>Block_Puzzle.py\<close>\<close>

text \<open>
  The development embeds the \<^verbatim>\<open>Game\<close> class of \<^verbatim>\<open>src/Block_Puzzle.py\<close> and the
  mouse handler of \<^verbatim>\<open>main\<close>. Python integers are \<^typ>\<open>int\<close>; the grid is a list of
  columns (\<^verbatim>\<open>self.grid[x][y]\<close>, \<^verbatim>\<open>x\<close> the column), a piece is a list of rows
  (\<^verbatim>\<open>piece[py][px]\<close>). A Python \<^verbatim>\<open>IndexError\<close> is the result \<open>None\<close>; a function
  that returns normally yields \<open>Some\<close> of its result (and of the new state where it
  mutates \<^verbatim>\<open>self\<close>). A method that assigns to no field of \<^verbatim>\<open>self\<close>
  (\<^verbatim>\<open>can_place_piece\<close>, \<^verbatim>\<open>any_valid_for_index\<close>, \<^verbatim>\<open>any_move_exists\<close>) returns its
  result only: the state after the call is the state before it. The particle list, the
  sounds and the high-score file are presentation and I/O and are left out of the
  state; the colour lookup of the particle loop, which can raise, is kept. The random
  triplet drawn by \<^verbatim>\<open>spawn_new_triplet\<close> is a parameter.
\<close>

subsection \<open>Configuration (lines 20--43)\<close>

definition SCREEN_W :: int where "SCREEN_W = 760"
definition GRID_COLS :: nat where "GRID_COLS = 10"
definition GRID_ROWS :: nat where "GRID_ROWS = 10"
definition CELL :: int where "CELL = 56"
definition GRID_X :: int where "GRID_X = (SCREEN_W - int GRID_COLS * CELL) div 2"
definition GRID_Y :: int where "GRID_Y = 160"
definition PARTICLE_COLORS :: "(int \<times> int \<times> int) list" where
  "PARTICLE_COLORS = [(240,80,70), (70,170,250), (120,220,120), (250,200,60), (180,120,240)]"
definition SCORE_PER_BLOCK :: int where "SCORE_PER_BLOCK = 10"
definition ROWCOL_CLEAR_BONUS :: int where "ROWCOL_CLEAR_BONUS = 50"

subsection \<open>The piece catalogue (lines 47--65)\<close>

text \<open>Each piece is a list of rows of 0/1; \<^verbatim>\<open>random_piece\<close> copies one of them.\<close>

definition PIECES :: "int list list list" where
  "PIECES =
    [[[1]],
     [[1,1]],
     [[1,1,1]],
     [[1,1,1,1]],
     [[1],[1]],
     [[1],[1],[1]],
     [[1,1],[1,1]],
     [[1,0],[1,1]],
     [[0,1],[1,1]],
     [[1,1,1],[0,1,0]],
     [[1,0],[1,0],[1,1]],
     [[0,1],[0,1],[1,1]],
     [[1,0,0],[1,1,1]],
     [[1,1,0],[0,1,1]],
     [[0,1,1],[1,1,0]],
     [[1,1,1],[1,0,0]]]"

subsection \<open>Data\<close>

type_synonym grid = "int list list"
type_synonym piece = "int list list"

text \<open>The fields of \<^verbatim>\<open>Game.__init__\<close> (without \<^verbatim>\<open>particles\<close>).\<close>

record game =
  grid :: grid
  score :: int
  highscore :: int
  pieces :: "piece list"
  piece_colors :: "int list"
  used :: "bool list"
  game_over :: bool

text \<open>The three pieces and three colours a call of \<^verbatim>\<open>spawn_new_triplet\<close> draws.\<close>

type_synonym triplet = "piece list \<times> int list"

subsection \<open>Python list access\<close>

text \<open>
  \<^verbatim>\<open>xs[i]\<close> for an index \<open>i \<ge> 0\<close>: the element, or \<^verbatim>\<open>IndexError\<close> (\<open>None\<close>) when
  \<open>i\<close> is past the end. Every index the modelled code uses is a \<^verbatim>\<open>range\<close> value or
  is guarded to be non-negative before the access.
\<close>

definition nth_opt :: "'a list \<Rightarrow> nat \<Rightarrow> 'a option" where
  "nth_opt xs i = (if i < length xs then Some (xs ! i) else None)"

text \<open>
  \<^verbatim>\<open>xs[i]\<close> for any integer \<open>i\<close>: a negative index counts from the end, and an index
  outside \<open>-len(xs) .. len(xs)-1\<close> raises \<^verbatim>\<open>IndexError\<close>.
\<close>

definition py_nth :: "'a list \<Rightarrow> int \<Rightarrow> 'a option" where
  "py_nth xs i =
     (let n = int (length xs); j = (if i < 0 then n + i else i)
      in if 0 \<le> j \<and> j < n then Some (xs ! nat j) else None)"

text \<open>\<^verbatim>\<open>self.grid[x][y]\<close> read and \<^verbatim>\<open>self.grid[x][y] = v\<close>.\<close>

definition grid_get :: "grid \<Rightarrow> nat \<Rightarrow> nat \<Rightarrow> int option" where
  "grid_get g x y = do { col \<leftarrow> nth_opt g x; nth_opt col y }"

definition grid_set :: "grid \<Rightarrow> nat \<Rightarrow> nat \<Rightarrow> int \<Rightarrow> grid option" where
  "grid_set g x y v =
     do { col \<leftarrow> nth_opt g x;
          if y < length col then Some (g[x := col[y := v]]) else None }"

subsection \<open>Loops\<close>

text \<open>
  \<^verbatim>\<open>for x in xs: if f(x): return True\<close> (or \<^verbatim>\<open>found = True; break\<close>), falling through
  to \<open>False\<close>: the scan stops at the first hit, and an exception in \<^verbatim>\<open>f\<close> ends it.
\<close>

fun any_opt :: "('a \<Rightarrow> bool option) \<Rightarrow> 'a list \<Rightarrow> bool option" where
  "any_opt f [] = Some False"
| "any_opt f (x # xs) =
     (case f x of None \<Rightarrow> None
      | Some True \<Rightarrow> Some True
      | Some False \<Rightarrow> any_opt f xs)"

text \<open>\<^verbatim>\<open>for x in xs: body(x)\<close> where the body updates the state \<open>s\<close>.\<close>

fun fold_opt :: "('a \<Rightarrow> 's \<Rightarrow> 's option) \<Rightarrow> 'a list \<Rightarrow> 's \<Rightarrow> 's option" where
  "fold_opt f [] s = Some s"
| "fold_opt f (x # xs) s =
     (case f x s of None \<Rightarrow> None | Some s' \<Rightarrow> fold_opt f xs s')"

text \<open>\<^verbatim>\<open>for x in xs: if test(x): out.append(x)\<close>.\<close>

fun filter_opt :: "('a \<Rightarrow> bool option) \<Rightarrow> 'a list \<Rightarrow> 'a list option" where
  "filter_opt f [] = Some []"
| "filter_opt f (x # xs) =
     (case f x of None \<Rightarrow> None
      | Some b \<Rightarrow>
          (case filter_opt f xs of None \<Rightarrow> None
           | Some ys \<Rightarrow> Some (if b then x # ys else ys)))"

text \<open>The comprehension \<^verbatim>\<open>[f(x) for x in xs]\<close>.\<close>

fun map_opt :: "('a \<Rightarrow> 'b option) \<Rightarrow> 'a list \<Rightarrow> 'b list option" where
  "map_opt f [] = Some []"
| "map_opt f (x # xs) =
     (case f x of None \<Rightarrow> None
      | Some y \<Rightarrow> (case map_opt f xs of None \<Rightarrow> None | Some ys \<Rightarrow> Some (y # ys)))"

subsection \<open>\<^verbatim>\<open>Game.reset\<close> and \<^verbatim>\<open>Game.spawn_new_triplet\<close> (lines 142--154)\<close>

text \<open>
  \<^verbatim>\<open>[[0]*GRID_ROWS for _ in range(GRID_COLS)]\<close> builds \<^verbatim>\<open>GRID_COLS\<close> separate columns,
  so no two columns share storage and a list of lists models the grid.
\<close>

definition reset :: "game \<Rightarrow> triplet \<Rightarrow> game" where
  "reset s fresh =
     s\<lparr>grid := replicate GRID_COLS (replicate GRID_ROWS 0), score := 0,
       pieces := fst fresh, piece_colors := snd fresh,
       used := [False, False, False], game_over := False\<rparr>"

definition spawn_new_triplet :: "game \<Rightarrow> triplet \<Rightarrow> game" where
  "spawn_new_triplet s fresh =
     s\<lparr>pieces := fst fresh, piece_colors := snd fresh, used := [False, False, False]\<rparr>"

subsection \<open>\<^verbatim>\<open>Game.can_place_piece\<close> (lines 156--167)\<close>

text \<open>
  The body of the two nested loops: \<^verbatim>\<open>piece[py][px]\<close> is truthy and the grid cell
  under it is not 0. The anchor is non-negative here (the bounds test precedes the
  loops), so \<^verbatim>\<open>drop_x+px\<close> is a natural number.
\<close>

definition cell_collides :: "grid \<Rightarrow> piece \<Rightarrow> int \<Rightarrow> int \<Rightarrow> nat \<Rightarrow> nat \<Rightarrow> bool option" where
  "cell_collides g piece drop_x drop_y px py =
     do { row \<leftarrow> nth_opt piece py;
          c \<leftarrow> nth_opt row px;
          if c \<noteq> 0
          then do { v \<leftarrow> grid_get g (nat (drop_x + int px)) (nat (drop_y + int py));
                    Some (v \<noteq> 0) }
          else Some False }"

definition can_place_piece :: "grid \<Rightarrow> piece \<Rightarrow> int \<Rightarrow> int \<Rightarrow> bool option" where
  "can_place_piece g piece drop_x drop_y =
     do { let h = length piece;
          row0 \<leftarrow> nth_opt piece 0;
          let w = length row0;
          if drop_x < 0 \<or> drop_y < 0 \<or> drop_x + int w > int GRID_COLS
             \<or> drop_y + int h > int GRID_ROWS
          then Some False
          else do { hit \<leftarrow> any_opt (\<lambda>px. any_opt (cell_collides g piece drop_x drop_y px) [0..<h])
                                 [0..<w];
                    Some (\<not> hit) } }"

subsection \<open>\<^verbatim>\<open>Game.any_valid_for_index\<close> and \<^verbatim>\<open>Game.any_move_exists\<close> (lines 169--186)\<close>

definition any_valid_for_index :: "game \<Rightarrow> nat \<Rightarrow> bool option" where
  "any_valid_for_index s index =
     do { u \<leftarrow> nth_opt (used s) index;
          if u then Some False
          else do { piece \<leftarrow> nth_opt (pieces s) index;
                    let h = length piece;
                    row0 \<leftarrow> nth_opt piece 0;
                    let w = length row0;
                    any_opt (\<lambda>gx. any_opt (\<lambda>gy. can_place_piece (grid s) piece (int gx) (int gy))
                                     [0..<nat (int GRID_ROWS - int h + 1)])
                            [0..<nat (int GRID_COLS - int w + 1)] } }"

definition any_move_exists :: "game \<Rightarrow> bool option" where
  "any_move_exists s = any_opt (any_valid_for_index s) [0..<3]"

subsection \<open>\<^verbatim>\<open>Game.clear_full_lines\<close> (lines 225--261)\<close>

text \<open>The scans of lines 230--236 and 243--249: \<^verbatim>\<open>full\<close> after the inner loop.\<close>

definition row_is_full :: "grid \<Rightarrow> nat \<Rightarrow> bool option" where
  "row_is_full g y =
     do { z \<leftarrow> any_opt (\<lambda>x. do { v \<leftarrow> grid_get g x y; Some (v = 0) }) [0..<GRID_COLS];
          Some (\<not> z) }"

definition col_is_full :: "grid \<Rightarrow> nat \<Rightarrow> bool option" where
  "col_is_full g x =
     do { z \<leftarrow> any_opt (\<lambda>y. do { v \<leftarrow> grid_get g x y; Some (v = 0) }) [0..<GRID_ROWS];
          Some (\<not> z) }"

text \<open>The bodies of the clearing loops (lines 237--240 and 250--253).\<close>

definition clear_row :: "nat \<Rightarrow> grid \<times> int \<Rightarrow> (grid \<times> int) option" where
  "clear_row y = (\<lambda>(g, cleared).
     do { g' \<leftarrow> fold_opt (\<lambda>x g. grid_set g x y 0) [0..<GRID_COLS] g;
          Some (g', cleared + 1) })"

definition clear_col :: "nat \<Rightarrow> grid \<times> int \<Rightarrow> (grid \<times> int) option" where
  "clear_col x = (\<lambda>(g, cleared).
     do { g' \<leftarrow> fold_opt (\<lambda>y g. grid_set g x y 0) [0..<GRID_ROWS] g;
          Some (g', cleared + 1) })"

text \<open>The body of the gravity loop (lines 257--260) for column \<open>x\<close>.\<close>

definition gravity_column :: "nat \<Rightarrow> grid \<Rightarrow> grid option" where
  "gravity_column x g =
     do { cells \<leftarrow> map_opt (\<lambda>y. grid_get g x y) [0..<GRID_ROWS];
          let col = filter (\<lambda>v. v \<noteq> 0) cells;
          let newcol = replicate (GRID_ROWS - length col) 0 @ col;
          fold_opt (\<lambda>y g. do { v \<leftarrow> nth_opt newcol y; grid_set g x y v }) [0..<GRID_ROWS] g }"

text \<open>The gravity collapse of lines 256--260, run when \<^verbatim>\<open>cleared > 0\<close>.\<close>

definition gravity_collapse :: "grid \<Rightarrow> grid option" where
  "gravity_collapse g = fold_opt gravity_column [0..<GRID_COLS] g"

text \<open>
  The grid before the gravity step: rows scanned and cleared, then columns scanned
  (on the grid the row clearing left) and cleared, with the running count.
\<close>

definition clear_lines_only :: "grid \<Rightarrow> (grid \<times> int) option" where
  "clear_lines_only g =
     do { rows_to_clear \<leftarrow> filter_opt (row_is_full g) [0..<GRID_ROWS];
          (g1, c1) \<leftarrow> fold_opt clear_row rows_to_clear (g, 0);
          cols_to_clear \<leftarrow> filter_opt (col_is_full g1) [0..<GRID_COLS];
          fold_opt clear_col cols_to_clear (g1, c1) }"

text \<open>The method returns \<^verbatim>\<open>cleared\<close>; the second component is the grid it leaves.\<close>

definition clear_full_lines :: "grid \<Rightarrow> (int \<times> grid) option" where
  "clear_full_lines g =
     do { (g2, cleared) \<leftarrow> clear_lines_only g;
          if cleared > 0
          then do { g3 \<leftarrow> gravity_collapse g2; Some (cleared, g3) }
          else Some (cleared, g2) }"

subsection \<open>\<^verbatim>\<open>Game.place_piece\<close> (lines 188--223)\<close>

text \<open>
  The body of the painting loops (lines 196--200) on the pair of the grid and
  \<^verbatim>\<open>placed_blocks\<close>. It runs after \<^verbatim>\<open>can_place_piece\<close> succeeded, so the anchor
  is non-negative.
\<close>

definition put_cell :: "piece \<Rightarrow> int \<Rightarrow> int \<Rightarrow> int \<Rightarrow> nat \<Rightarrow> nat \<Rightarrow> grid \<times> int \<Rightarrow> (grid \<times> int) option" where
  "put_cell piece gx gy color_id py px = (\<lambda>(g, placed_blocks).
     do { row \<leftarrow> nth_opt piece py;
          c \<leftarrow> nth_opt row px;
          if c \<noteq> 0
          then do { g' \<leftarrow> grid_set g (nat (gx + int px)) (nat (gy + int py)) color_id;
                    Some (g', placed_blocks + 1) }
          else Some (g, placed_blocks) })"

definition put_piece :: "grid \<Rightarrow> piece \<Rightarrow> int \<Rightarrow> int \<Rightarrow> int \<Rightarrow> (grid \<times> int) option" where
  "put_piece g piece gx gy color_id =
     fold_opt (\<lambda>py st. do { row0 \<leftarrow> nth_opt piece 0;
                            fold_opt (put_cell piece gx gy color_id py) [0..<length row0] st })
              [0..<length piece] (g, 0)"

text \<open>
  The result pairs the returned flag with the state the call leaves. \<open>fresh\<close> is the
  triplet \<^verbatim>\<open>spawn_new_triplet\<close> would draw. Of the particle loop (lines 203--207) the
  model keeps the one expression that can raise,
  \<^verbatim>\<open>PARTICLE_COLORS[self.piece_colors[index]]\<close>, evaluated alike in each of the twelve
  rounds; the particles themselves are not part of the state.
\<close>

definition place_piece :: "game \<Rightarrow> int \<Rightarrow> int \<Rightarrow> int \<Rightarrow> triplet \<Rightarrow> (bool \<times> game) option" where
  "place_piece s index gx gy fresh =
     (if index < 0 \<or> index > 2 then Some (False, s)
      else do {
        u \<leftarrow> nth_opt (used s) (nat index);
        if u then Some (False, s)
        else do {
          piece \<leftarrow> nth_opt (pieces s) (nat index);
          ok \<leftarrow> can_place_piece (grid s) piece gx gy;
          if \<not> ok then Some (False, s)
          else do {
            c \<leftarrow> nth_opt (piece_colors s) (nat index);
            let color_id = c + 1;
            (g1, placed_blocks) \<leftarrow> put_piece (grid s) piece gx gy color_id;
            let used1 = (used s)[nat index := True];
            particle_color \<leftarrow> py_nth PARTICLE_COLORS c;
            let score1 = score s + placed_blocks * SCORE_PER_BLOCK;
            (clears, g2) \<leftarrow> clear_full_lines g1;
            let score2 = (if clears > 0 then score1 + ROWCOL_CLEAR_BONUS * clears else score1);
            let s1 = s\<lparr>grid := g2, score := score2, used := used1\<rparr>;
            let s2 = (if list_all (\<lambda>b. b) (used s1) then spawn_new_triplet s1 fresh else s1);
            let s3 = (if score s2 > highscore s2 then s2\<lparr>highscore := score s2\<rparr> else s2);
            Some (True, s3) } } })"

subsection \<open>The left-click handler of \<^verbatim>\<open>main\<close> (lines 361--366 and 463--478)\<close>

text \<open>
  \<^verbatim>\<open>screen_to_grid\<close> returns a cell or Python's \<^verbatim>\<open>None\<close>; here \<open>None\<close> stands for
  that object, not for an exception. \<^verbatim>\<open>//\<close> is floor division, as \<open>div\<close> on \<^typ>\<open>int\<close>.
\<close>

definition screen_to_grid :: "int \<Rightarrow> int \<Rightarrow> (int \<times> int) option" where
  "screen_to_grid mx my =
     (let gx = (mx - GRID_X) div CELL; gy = (my - GRID_Y) div CELL
      in if 0 \<le> gx \<and> gx < int GRID_COLS \<and> 0 \<le> gy \<and> gy < int GRID_ROWS
         then Some (gx, gy) else None)"

text \<open>The loop of lines 471--475: the first unused piece that fits is placed.\<close>

fun try_pieces :: "game \<Rightarrow> int \<Rightarrow> int \<Rightarrow> triplet \<Rightarrow> nat list \<Rightarrow> game option" where
  "try_pieces s gx gy fresh [] = Some s"
| "try_pieces s gx gy fresh (i # rest) =
     do { u \<leftarrow> nth_opt (used s) i;
          if u then try_pieces s gx gy fresh rest
          else do { piece \<leftarrow> nth_opt (pieces s) i;
                    ok \<leftarrow> can_place_piece (grid s) piece gx gy;
                    if ok
                    then do { (success, s') \<leftarrow> place_piece s (int i) gx gy fresh; Some s' }
                    else try_pieces s gx gy fresh rest } }"

text \<open>
  The \<^verbatim>\<open>MOUSEBUTTONDOWN\<close> branch in state \<^verbatim>\<open>"play"\<close>: \<open>button\<close> is
  \<^verbatim>\<open>event.button\<close>, \<open>pos\<close> is \<^verbatim>\<open>event.pos\<close>.
\<close>

definition mouse_button_down :: "game \<Rightarrow> int \<Rightarrow> int \<times> int \<Rightarrow> triplet \<Rightarrow> game option" where
  "mouse_button_down s button pos fresh =
     (if button = 1 \<and> \<not> game_over s
      then (case screen_to_grid (fst pos) (snd pos) of
              None \<Rightarrow> Some s
            | Some (gx, gy) \<Rightarrow>
                do { s1 \<leftarrow> try_pieces s gx gy fresh [0..<3];
                     m \<leftarrow> any_move_exists s1;
                     Some (if \<not> m then s1\<lparr>game_over := True\<rparr> else s1) })
      else Some s)"

section \<open>Well-formed states and the vocabulary of the properties\<close>

text \<open>
  The grid the constructor builds has \<^verbatim>\<open>GRID_COLS\<close> columns of \<^verbatim>\<open>GRID_ROWS\<close> cells, and
  no method changes a length. A piece is a non-empty rectangular matrix, as every entry
  of the catalogue is. The game holds three pieces, three colours and three flags.
\<close>

definition wf_grid :: "grid \<Rightarrow> bool" where
  "wf_grid g \<longleftrightarrow> length g = GRID_COLS \<and> list_all (\<lambda>col. length col = GRID_ROWS) g"

definition wf_piece :: "piece \<Rightarrow> bool" where
  "wf_piece p \<longleftrightarrow> p \<noteq> [] \<and> list_all (\<lambda>row. length row = length (p ! 0)) p"

definition wf_triplet :: "triplet \<Rightarrow> bool" where
  "wf_triplet fresh \<longleftrightarrow>
     length (fst fresh) = 3 \<and> list_all wf_piece (fst fresh) \<and> length (snd fresh) = 3"

text \<open>Colours as \<^verbatim>\<open>random.randrange(len(PARTICLE_COLORS))\<close> draws them.\<close>

definition wf_colors :: "int list \<Rightarrow> bool" where
  "wf_colors cs \<longleftrightarrow> list_all (\<lambda>c. 0 \<le> c \<and> c < int (length PARTICLE_COLORS)) cs"

definition wf_game :: "game \<Rightarrow> bool" where
  "wf_game s \<longleftrightarrow> wf_grid (grid s) \<and> length (pieces s) = 3 \<and> list_all wf_piece (pieces s)
     \<and> length (piece_colors s) = 3 \<and> length (used s) = 3"

text \<open>Row \<open>y\<close> (column \<open>x\<close>) is full: every one of its cells is nonzero.\<close>

definition row_full :: "grid \<Rightarrow> nat \<Rightarrow> bool" where
  "row_full g y \<longleftrightarrow> list_all (\<lambda>x. g ! x ! y \<noteq> 0) [0..<GRID_COLS]"

definition col_full :: "grid \<Rightarrow> nat \<Rightarrow> bool" where
  "col_full g x \<longleftrightarrow> list_all (\<lambda>y. g ! x ! y \<noteq> 0) [0..<GRID_ROWS]"

definition full_rows :: "grid \<Rightarrow> nat list" where
  "full_rows g = filter (row_full g) [0..<GRID_ROWS]"

definition full_cols :: "grid \<Rightarrow> nat list" where
  "full_cols g = filter (col_full g) [0..<GRID_COLS]"

text \<open>The nonzero cells of a column, in order, and the occupied cells of a piece.\<close>

definition nonzero_cells :: "int list \<Rightarrow> int list" where
  "nonzero_cells col = filter (\<lambda>v. v \<noteq> 0) col"

definition occupied_cells :: "piece \<Rightarrow> int" where
  "occupied_cells p = sum_list (map (\<lambda>row. int (length (filter (\<lambda>c. c \<noteq> 0) row))) p)"

text \<open>
  The bounding box of \<open>p\<close> anchored at \<open>(x, y)\<close> lies in the grid; every occupied cell
  of \<open>p\<close> lies over an empty grid cell.
\<close>

definition in_bounds :: "piece \<Rightarrow> int \<Rightarrow> int \<Rightarrow> bool" where
  "in_bounds p x y \<longleftrightarrow> 0 \<le> x \<and> 0 \<le> y \<and> x + int (length (p ! 0)) \<le> int GRID_COLS
     \<and> y + int (length p) \<le> int GRID_ROWS"

definition cells_free :: "grid \<Rightarrow> piece \<Rightarrow> int \<Rightarrow> int \<Rightarrow> bool" where
  "cells_free g p x y \<longleftrightarrow>
     list_all (\<lambda>py. list_all (\<lambda>px. p ! py ! px \<noteq> 0 \<longrightarrow> g ! nat (x + int px) ! nat (y + int py) = 0)
                              [0..<length (p ! 0)])
              [0..<length p]"

subsection \<open>Closed forms of the loops\<close>

text \<open>
  What each loop of \<^verbatim>\<open>clear_full_lines\<close> and \<^verbatim>\<open>place_piece\<close> computes on a well-formed
  grid; the lemmas below prove that the embedded loops return exactly these.
\<close>

definition zero_row :: "nat \<Rightarrow> grid \<Rightarrow> grid" where
  "zero_row y g = map (\<lambda>col. col[y := 0]) g"

definition zero_col :: "nat \<Rightarrow> grid \<Rightarrow> grid" where
  "zero_col x g = g[x := replicate GRID_ROWS 0]"

definition collapse :: "int list \<Rightarrow> int list" where
  "collapse col =
     replicate (GRID_ROWS - length (filter (\<lambda>v. v \<noteq> 0) col)) 0 @ filter (\<lambda>v. v \<noteq> 0) col"

definition rows_cleared :: "grid \<Rightarrow> grid" where
  "rows_cleared g = fold zero_row (full_rows g) g"

definition lines_cleared :: "grid \<Rightarrow> grid" where
  "lines_cleared g = fold zero_col (full_cols (rows_cleared g)) (rows_cleared g)"

definition paint_cell :: "piece \<Rightarrow> int \<Rightarrow> int \<Rightarrow> int \<Rightarrow> nat \<Rightarrow> nat \<Rightarrow> grid \<times> int \<Rightarrow> grid \<times> int" where
  "paint_cell p gx gy color_id py px = (\<lambda>(g, n).
     if p ! py ! px \<noteq> 0
     then (g[nat (gx + int px) := (g ! nat (gx + int px))[nat (gy + int py) := color_id]], n + 1)
     else (g, n))"

definition paint_row :: "piece \<Rightarrow> int \<Rightarrow> int \<Rightarrow> int \<Rightarrow> nat \<Rightarrow> grid \<times> int \<Rightarrow> grid \<times> int" where
  "paint_row p gx gy color_id py = fold (paint_cell p gx gy color_id py) [0..<length (p ! 0)]"

section \<open>Concrete boards and games\<close>

text \<open>
  Boards are written cell by cell: the entry at column \<open>x\<close>, row \<open>y\<close> is given by the
  condition on \<open>(x, y)\<close>. Row 9 is the bottom row, towards which cells fall.
\<close>

text \<open>Row 9 and column 0 are full and meet in the cell (0, 9).\<close>

definition cross_grid :: grid where
  "cross_grid = map (\<lambda>x. map (\<lambda>y. if x = 0 \<or> y = 9 then 1 else 0) [0..<GRID_ROWS]) [0..<GRID_COLS]"

definition cross_cleared :: grid where
  "cross_cleared = map (\<lambda>x. map (\<lambda>y. if x = 0 \<and> 0 < y then 1 else 0) [0..<GRID_ROWS]) [0..<GRID_COLS]"

text \<open>
  Row 9 is full; above it every even column holds one cell in row 8 and every odd
  column one cell in row 7, so neither row 7 nor row 8 is full.
\<close>

definition stagger_grid :: grid where
  "stagger_grid =
     map (\<lambda>x. map (\<lambda>y. if y = 9 \<or> (even x \<and> y = 8) \<or> (odd x \<and> y = 7) then 1 else 0)
                   [0..<GRID_ROWS]) [0..<GRID_COLS]"

definition stagger_cleared :: grid where
  "stagger_cleared =
     map (\<lambda>x. map (\<lambda>y. if (even x \<and> y = 8) \<or> (odd x \<and> y = 7) then 1 else 0)
                   [0..<GRID_ROWS]) [0..<GRID_COLS]"

definition bottom_row_grid :: grid where
  "bottom_row_grid = map (\<lambda>x. map (\<lambda>y. if y = 9 then 1 else 0) [0..<GRID_ROWS]) [0..<GRID_COLS]"

definition empty_grid :: grid where
  "empty_grid = map (\<lambda>x. map (\<lambda>y. 0) [0..<GRID_ROWS]) [0..<GRID_COLS]"

text \<open>Column 3 is full, no row is; one more cell floats at (5, 2).\<close>

definition column_grid :: grid where
  "column_grid =
     map (\<lambda>x. map (\<lambda>y. if x = 3 \<or> (x = 5 \<and> y = 2) then 1 else 0) [0..<GRID_ROWS]) [0..<GRID_COLS]"

definition column_settled :: grid where
  "column_settled =
     map (\<lambda>x. map (\<lambda>y. if x = 5 \<and> y = 9 then 1 else 0) [0..<GRID_ROWS]) [0..<GRID_COLS]"

text \<open>Rows 8 and 9 are full except for their first two cells.\<close>

definition gap_grid :: grid where
  "gap_grid = map (\<lambda>x. map (\<lambda>y. if 2 \<le> x \<and> 8 \<le> y then 1 else 0) [0..<GRID_ROWS]) [0..<GRID_COLS]"

definition gap_filled :: grid where
  "gap_filled =
     map (\<lambda>x. map (\<lambda>y. if 8 \<le> y then (if 2 \<le> x then 1 else 3) else 0) [0..<GRID_ROWS])
         [0..<GRID_COLS]"

definition t_piece :: piece where
  "t_piece = [[1, 1, 1], [0, 1, 0]]"

definition single_piece :: piece where
  "single_piece = [[1]]"

definition square_piece :: piece where
  "square_piece = [[1, 1], [1, 1]]"

definition demo_fresh :: triplet where
  "demo_fresh = ([single_piece, single_piece, single_piece], [0, 0, 0])"

definition demo_game :: game where
  "demo_game = \<lparr>grid = stagger_grid, score = 0, highscore = 0,
                 pieces = [t_piece, single_piece, square_piece], piece_colors = [0, 1, 2],
                 used = [False, True, False], game_over = False\<rparr>"


definition gap_game :: game where
  "gap_game = \<lparr>grid = gap_grid, score = 0, highscore = 0,
                pieces = [t_piece, single_piece, square_piece], piece_colors = [0, 1, 2],
                used = [True, True, False], game_over = False\<rparr>"





definition gap_game_after :: game where
  "gap_game_after = \<lparr>grid = empty_grid, score = 140, highscore = 140,
                      pieces = [single_piece, single_piece, single_piece],
                      piece_colors = [0, 0, 0],
                      used = [False, False, False], game_over = False\<rparr>"

section \<open>The loop combinators on bodies that do not raise\<close>

lemma any_opt_total:
  "(\<And>x. x \<in> set xs \<Longrightarrow> f x = Some (P x)) \<Longrightarrow> any_opt f xs = Some (\<exists>x\<in>set xs. P x)"
  by (induction xs) (auto split: bool.splits)

lemma filter_opt_total:
  "(\<And>x. x \<in> set xs \<Longrightarrow> f x = Some (P x)) \<Longrightarrow> filter_opt f xs = Some (filter P xs)"
  by (induction xs) auto

lemma map_opt_total:
  "(\<And>x. x \<in> set xs \<Longrightarrow> f x = Some (h x)) \<Longrightarrow> map_opt f xs = Some (map h xs)"
  by (induction xs) auto

lemma fold_opt_total:
  "I s \<Longrightarrow> (\<And>x t. x \<in> set xs \<Longrightarrow> I t \<Longrightarrow> f x t = Some (h x t) \<and> I (h x t))
     \<Longrightarrow> fold_opt f xs s = Some (fold h xs s) \<and> I (fold h xs s)"
  by (induction xs arbitrary: s) auto

lemma bex_upt: "(\<exists>i\<in>set [0..<n]. P i) \<longleftrightarrow> (\<exists>i<n. P i)"
  by auto

lemma ex_int_range:
  fixes n :: int
  shows "(\<exists>a\<in>set [0..<nat (n + 1)]. P (int a)) \<longleftrightarrow> (\<exists>k. 0 \<le> k \<and> k \<le> n \<and> P k)"
proof
  assume "\<exists>a\<in>set [0..<nat (n + 1)]. P (int a)"
  then obtain a where a: "a < nat (n + 1)" "P (int a)" by auto
  then have "0 \<le> int a \<and> int a \<le> n \<and> P (int a)" by linarith
  then show "\<exists>k. 0 \<le> k \<and> k \<le> n \<and> P k" by blast
next
  assume "\<exists>k. 0 \<le> k \<and> k \<le> n \<and> P k"
  then obtain k where k: "0 \<le> k" "k \<le> n" "P k" by blast
  have "nat k \<in> set [0..<nat (n + 1)]" using k(1,2) by simp
  moreover have "int (nat k) = k" using k(1) by simp
  then have "P (int (nat k))" using k(3) by (simp only:)
  ultimately show "\<exists>a\<in>set [0..<nat (n + 1)]. P (int a)" by blast
qed

section \<open>Grid access on a well-formed grid\<close>

lemma GRID_ROWS_pos: "0 < GRID_ROWS"
  by (simp add: GRID_ROWS_def)

lemma GRID_COLS_pos: "0 < GRID_COLS"
  by (simp add: GRID_COLS_def)

lemma wf_grid_col: "wf_grid g \<Longrightarrow> x < GRID_COLS \<Longrightarrow> length (g ! x) = GRID_ROWS"
  by (simp add: wf_grid_def list_all_length)

lemma wf_grid_length: "wf_grid g \<Longrightarrow> length g = GRID_COLS"
  by (simp add: wf_grid_def)

lemma grid_get_wf:
  "wf_grid g \<Longrightarrow> x < GRID_COLS \<Longrightarrow> y < GRID_ROWS \<Longrightarrow> grid_get g x y = Some (g ! x ! y)"
  by (simp add: grid_get_def nth_opt_def wf_grid_length wf_grid_col)

lemma grid_set_wf:
  "wf_grid g \<Longrightarrow> x < GRID_COLS \<Longrightarrow> y < GRID_ROWS \<Longrightarrow>
     grid_set g x y v = Some (g[x := (g ! x)[y := v]])"
  by (simp add: grid_set_def nth_opt_def wf_grid_length wf_grid_col)

lemma wf_grid_update:
  "wf_grid g \<Longrightarrow> length c = GRID_ROWS \<Longrightarrow> wf_grid (g[x := c])"
  by (cases "x < length g")
     (auto simp: wf_grid_def list_all_length nth_list_update list_update_beyond)

lemma row_full_iff: "row_full g y \<longleftrightarrow> (\<forall>x<GRID_COLS. g ! x ! y \<noteq> 0)"
  by (auto simp: row_full_def list_all_iff)

lemma col_full_iff: "col_full g x \<longleftrightarrow> (\<forall>y<GRID_ROWS. g ! x ! y \<noteq> 0)"
  by (auto simp: col_full_def list_all_iff)

lemma full_rows_empty_iff: "full_rows g = [] \<longleftrightarrow> (\<forall>y<GRID_ROWS. \<not> row_full g y)"
  by (auto simp: full_rows_def filter_empty_conv)

lemma full_cols_empty_iff: "full_cols g = [] \<longleftrightarrow> (\<forall>x<GRID_COLS. \<not> col_full g x)"
  by (auto simp: full_cols_def filter_empty_conv)

lemma row_is_full_wf:
  assumes "wf_grid g" "y < GRID_ROWS"
  shows "row_is_full g y = Some (row_full g y)"
proof -
  have "any_opt (\<lambda>x. do { v \<leftarrow> grid_get g x y; Some (v = 0) }) [0..<GRID_COLS]
        = Some (\<exists>x\<in>set [0..<GRID_COLS]. g ! x ! y = 0)"
    by (rule any_opt_total) (use assms in \<open>simp add: grid_get_wf\<close>)
  then show ?thesis
    by (auto simp: row_is_full_def row_full_iff)
qed

lemma col_is_full_wf:
  assumes "wf_grid g" "x < GRID_COLS"
  shows "col_is_full g x = Some (col_full g x)"
proof -
  have "any_opt (\<lambda>y. do { v \<leftarrow> grid_get g x y; Some (v = 0) }) [0..<GRID_ROWS]
        = Some (\<exists>y\<in>set [0..<GRID_ROWS]. g ! x ! y = 0)"
    by (rule any_opt_total) (use assms in \<open>simp add: grid_get_wf\<close>)
  then show ?thesis
    by (auto simp: col_is_full_def col_full_iff)
qed

section \<open>The loops of \<^verbatim>\<open>clear_full_lines\<close> in closed form\<close>

lemma drop_update_head: "n < length c \<Longrightarrow> (drop n c)[0 := v] = v # drop (Suc n) c"
  by (simp add: Cons_nth_drop_Suc [symmetric])

lemma fold_update_each:
  "n \<le> length g \<Longrightarrow>
     fold (\<lambda>x g. g[x := F (g ! x)]) [0..<n] g = map F (take n g) @ drop n g"
proof (induction n)
  case 0
  then show ?case by simp
next
  case (Suc n)
  then have n: "n < length g" by simp
  have "fold (\<lambda>x g. g[x := F (g ! x)]) [0..<Suc n] g
        = (map F (take n g) @ drop n g)[n := F ((map F (take n g) @ drop n g) ! n)]"
    using Suc by simp
  also have "(map F (take n g) @ drop n g) ! n = g ! n"
    using n by (simp add: nth_append)
  also have "(map F (take n g) @ drop n g)[n := F (g ! n)]
             = map F (take n g) @ (drop n g)[0 := F (g ! n)]"
    using n by (simp add: list_update_append)
  also have "\<dots> = map F (take (Suc n) g) @ drop (Suc n) g"
    using n by (simp add: drop_update_head take_Suc_conv_app_nth)
  finally show ?case .
qed

lemma fold_write_column:
  "x < length g \<Longrightarrow> length nc = length (g ! x) \<Longrightarrow> n \<le> length nc \<Longrightarrow>
     fold (\<lambda>y g. g[x := (g ! x)[y := nc ! y]]) [0..<n] g = g[x := take n nc @ drop n (g ! x)]"
proof (induction n)
  case 0
  then show ?case by simp
next
  case (Suc n)
  then have n: "n < length nc" "n < length (g ! x)" by simp_all
  have "fold (\<lambda>y g. g[x := (g ! x)[y := nc ! y]]) [0..<Suc n] g
        = g[x := (take n nc @ drop n (g ! x))[n := nc ! n]]"
    using Suc by simp
  also have "(take n nc @ drop n (g ! x))[n := nc ! n] = take n nc @ (drop n (g ! x))[0 := nc ! n]"
    using n by (simp add: list_update_append)
  also have "\<dots> = take (Suc n) nc @ drop (Suc n) (g ! x)"
    using n by (simp add: drop_update_head take_Suc_conv_app_nth)
  finally show ?case .
qed

lemma wf_zero_row: "wf_grid g \<Longrightarrow> wf_grid (zero_row y g)"
  by (simp add: wf_grid_def zero_row_def list_all_length)

lemma wf_zero_col: "wf_grid g \<Longrightarrow> wf_grid (zero_col x g)"
  by (simp add: zero_col_def wf_grid_update)

lemma length_collapse: "length col = GRID_ROWS \<Longrightarrow> length (collapse col) = GRID_ROWS"
proof -
  assume "length col = GRID_ROWS"
  moreover have "length (filter (\<lambda>v. v \<noteq> 0) col) \<le> length col" by (rule length_filter_le)
  ultimately show ?thesis by (simp add: collapse_def)
qed

lemma wf_map_collapse: "wf_grid g \<Longrightarrow> wf_grid (map collapse g)"
  by (simp add: wf_grid_def list_all_length length_collapse)

lemma clear_row_loop:
  assumes "wf_grid g" "y < GRID_ROWS"
  shows "fold_opt (\<lambda>x g. grid_set g x y 0) [0..<GRID_COLS] g = Some (zero_row y g)"
proof -
  have "fold_opt (\<lambda>x g. grid_set g x y 0) [0..<GRID_COLS] g
          = Some (fold (\<lambda>x g. g[x := (\<lambda>c. c[y := 0]) (g ! x)]) [0..<GRID_COLS] g)
        \<and> wf_grid (fold (\<lambda>x g. g[x := (\<lambda>c. c[y := 0]) (g ! x)]) [0..<GRID_COLS] g)"
    by (rule fold_opt_total [where I = wf_grid])
       (use assms in \<open>simp_all add: grid_set_wf wf_grid_update wf_grid_col\<close>)
  then show ?thesis
    using assms fold_update_each [of GRID_COLS g "\<lambda>c. c[y := 0]"]
    by (simp add: wf_grid_length zero_row_def)
qed

lemma clear_col_loop:
  assumes "wf_grid g" "x < GRID_COLS"
  shows "fold_opt (\<lambda>y g. grid_set g x y 0) [0..<GRID_ROWS] g = Some (zero_col x g)"
proof -
  let ?nc = "replicate GRID_ROWS (0::int)"
  let ?h = "\<lambda>y g. g[x := (g ! x)[y := ?nc ! y]]"
  have "fold_opt (\<lambda>y g. grid_set g x y 0) [0..<GRID_ROWS] g = Some (fold ?h [0..<GRID_ROWS] g)
        \<and> wf_grid (fold ?h [0..<GRID_ROWS] g)"
    by (rule fold_opt_total [where I = wf_grid])
       (use assms in \<open>simp_all add: grid_set_wf wf_grid_update wf_grid_col\<close>)
  moreover have "fold ?h [0..<GRID_ROWS] g = g[x := take GRID_ROWS ?nc @ drop GRID_ROWS (g ! x)]"
    by (rule fold_write_column) (use assms in \<open>simp_all add: wf_grid_length wf_grid_col\<close>)
  ultimately show ?thesis
    using assms by (simp add: zero_col_def wf_grid_col)
qed

lemma clear_row_wf:
  "wf_grid g \<Longrightarrow> y < GRID_ROWS \<Longrightarrow> clear_row y (g, c) = Some (zero_row y g, c + 1)"
  by (simp add: clear_row_def clear_row_loop)

lemma clear_col_wf:
  "wf_grid g \<Longrightarrow> x < GRID_COLS \<Longrightarrow> clear_col x (g, c) = Some (zero_col x g, c + 1)"
  by (simp add: clear_col_def clear_col_loop)

lemma wf_fold_zero_row: "wf_grid g \<Longrightarrow> wf_grid (fold zero_row ys g)"
  by (induction ys arbitrary: g) (simp_all add: wf_zero_row)

lemma wf_fold_zero_col: "wf_grid g \<Longrightarrow> wf_grid (fold zero_col xs g)"
  by (induction xs arbitrary: g) (simp_all add: wf_zero_col)

lemma clear_rows_loop:
  "wf_grid g \<Longrightarrow> \<forall>y\<in>set ys. y < GRID_ROWS \<Longrightarrow>
     fold_opt clear_row ys (g, c) = Some (fold zero_row ys g, c + int (length ys))"
  by (induction ys arbitrary: g c) (simp_all add: clear_row_wf wf_zero_row)

lemma clear_cols_loop:
  "wf_grid g \<Longrightarrow> \<forall>x\<in>set xs. x < GRID_COLS \<Longrightarrow>
     fold_opt clear_col xs (g, c) = Some (fold zero_col xs g, c + int (length xs))"
  by (induction xs arbitrary: g c) (simp_all add: clear_col_wf wf_zero_col)

lemma gravity_column_wf:
  assumes "wf_grid g" "x < GRID_COLS"
  shows "gravity_column x g = Some (g[x := collapse (g ! x)])"
proof -
  let ?nc = "collapse (g ! x)"
  let ?h = "\<lambda>y g. g[x := (g ! x)[y := ?nc ! y]]"
  have len: "length ?nc = GRID_ROWS"
    using assms by (simp add: length_collapse wf_grid_col)
  have cells: "map_opt (\<lambda>y. grid_get g x y) [0..<GRID_ROWS] = Some (g ! x)"
  proof -
    have "map_opt (\<lambda>y. grid_get g x y) [0..<GRID_ROWS] = Some (map (\<lambda>y. g ! x ! y) [0..<GRID_ROWS])"
      by (rule map_opt_total) (use assms in \<open>simp add: grid_get_wf\<close>)
    moreover have "map (\<lambda>y. g ! x ! y) [0..<GRID_ROWS] = g ! x"
      using assms wf_grid_col [of g x] map_nth [of "g ! x"] by simp
    ultimately show ?thesis by simp
  qed
  have "fold_opt (\<lambda>y g. do { v \<leftarrow> nth_opt ?nc y; grid_set g x y v }) [0..<GRID_ROWS] g
          = Some (fold ?h [0..<GRID_ROWS] g) \<and> wf_grid (fold ?h [0..<GRID_ROWS] g)"
    by (rule fold_opt_total [where I = wf_grid])
       (use assms len in \<open>simp_all add: nth_opt_def grid_set_wf wf_grid_update wf_grid_col\<close>)
  moreover have "fold ?h [0..<GRID_ROWS] g = g[x := take GRID_ROWS ?nc @ drop GRID_ROWS (g ! x)]"
    by (rule fold_write_column) (use assms len in \<open>simp_all add: wf_grid_length wf_grid_col\<close>)
  ultimately show ?thesis
    using assms len cells by (simp add: gravity_column_def collapse_def wf_grid_col Let_def)
qed

lemma gravity_collapse_wf:
  assumes "wf_grid g"
  shows "gravity_collapse g = Some (map collapse g)"
proof -
  let ?h = "\<lambda>x g. g[x := collapse (g ! x)]"
  have "fold_opt gravity_column [0..<GRID_COLS] g = Some (fold ?h [0..<GRID_COLS] g)
        \<and> wf_grid (fold ?h [0..<GRID_COLS] g)"
    by (rule fold_opt_total [where I = wf_grid])
       (use assms in \<open>simp_all add: gravity_column_wf wf_grid_update length_collapse wf_grid_col\<close>)
  then show ?thesis
    using assms fold_update_each [of GRID_COLS g collapse]
    by (simp add: gravity_collapse_def wf_grid_length)
qed

subsection \<open>The whole method\<close>

lemma wf_rows_cleared: "wf_grid g \<Longrightarrow> wf_grid (rows_cleared g)"
  by (simp add: rows_cleared_def wf_fold_zero_row)

lemma wf_lines_cleared: "wf_grid g \<Longrightarrow> wf_grid (lines_cleared g)"
  by (simp add: lines_cleared_def wf_fold_zero_col wf_rows_cleared)

lemma clear_lines_only_wf:
  assumes "wf_grid g"
  shows "clear_lines_only g
         = Some (lines_cleared g,
                 int (length (full_rows g)) + int (length (full_cols (rows_cleared g))))"
proof -
  have rows: "filter_opt (row_is_full g) [0..<GRID_ROWS] = Some (full_rows g)"
    unfolding full_rows_def
    by (rule filter_opt_total) (use assms in \<open>simp add: row_is_full_wf\<close>)
  have r: "fold_opt clear_row (full_rows g) (g, 0)
           = Some (rows_cleared g, int (length (full_rows g)))"
    using clear_rows_loop [of g "full_rows g" 0] assms
    by (simp add: rows_cleared_def full_rows_def)
  have wf1: "wf_grid (rows_cleared g)"
    using assms by (rule wf_rows_cleared)
  have cols: "filter_opt (col_is_full (rows_cleared g)) [0..<GRID_COLS]
              = Some (full_cols (rows_cleared g))"
    unfolding full_cols_def
    by (rule filter_opt_total) (use wf1 in \<open>simp add: col_is_full_wf\<close>)
  have c: "fold_opt clear_col (full_cols (rows_cleared g))
             (rows_cleared g, int (length (full_rows g)))
           = Some (lines_cleared g,
                   int (length (full_rows g)) + int (length (full_cols (rows_cleared g))))"
    using clear_cols_loop [of "rows_cleared g" "full_cols (rows_cleared g)"] wf1
    by (simp add: lines_cleared_def full_cols_def)
  show ?thesis
    by (simp add: clear_lines_only_def rows r cols c)
qed

lemma clear_full_lines_wf:
  assumes "wf_grid g"
  shows "clear_full_lines g
         = Some (int (length (full_rows g)) + int (length (full_cols (rows_cleared g))),
                 if full_rows g = [] \<and> full_cols (rows_cleared g) = [] then lines_cleared g
                 else map collapse (lines_cleared g))"
proof -
  have "0 < int (length (full_rows g)) + int (length (full_cols (rows_cleared g)))
        \<longleftrightarrow> \<not> (full_rows g = [] \<and> full_cols (rows_cleared g) = [])"
    by (cases "full_rows g"; cases "full_cols (rows_cleared g)") simp_all
  then show ?thesis
    using assms
    by (simp add: clear_full_lines_def clear_lines_only_wf gravity_collapse_wf wf_lines_cleared)
qed

lemma fold_zero_row_nth:
  "x < length g \<Longrightarrow> fold zero_row ys g ! x ! y
     = (if y \<in> set ys \<and> y < length (g ! x) then 0 else g ! x ! y)"
proof (induction ys arbitrary: g)
  case Nil
  then show ?case by simp
next
  case (Cons a ys)
  then show ?case
    by (cases "a < length (g ! x)")
       (auto simp: zero_row_def nth_list_update list_update_beyond)
qed

lemma fold_zero_col_nth:
  "x < length g \<Longrightarrow> fold zero_col xs g ! x
     = (if x \<in> set xs then replicate GRID_ROWS 0 else g ! x)"
  by (induction xs arbitrary: g) (auto simp: zero_col_def nth_list_update)

text \<open>Once a row has been zeroed, every column holds a 0.\<close>

lemma no_full_col_after_row_clear:
  assumes "wf_grid g" "full_rows g \<noteq> []"
  shows "full_cols (rows_cleared g) = []"
proof -
  from assms(2) obtain y0 where y0: "y0 \<in> set (full_rows g)"
    by (cases "full_rows g") auto
  then have y0r: "y0 < GRID_ROWS" by (simp add: full_rows_def)
  have "\<not> col_full (rows_cleared g) x" if "x < GRID_COLS" for x
  proof -
    have "rows_cleared g ! x ! y0 = 0"
      using assms(1) that y0 y0r
      by (simp add: rows_cleared_def fold_zero_row_nth wf_grid_length wf_grid_col)
    then show ?thesis using y0r by (auto simp: col_full_iff)
  qed
  then show ?thesis by (simp add: full_cols_empty_iff)
qed

lemma filter_collapse: "filter (\<lambda>v. v \<noteq> 0) (collapse col) = filter (\<lambda>v. v \<noteq> 0) col"
  by (simp add: collapse_def)

lemma all_nonzero_iff:
  "length (filter (\<lambda>v. v \<noteq> 0) col) = length col \<longleftrightarrow> (\<forall>y<length col. col ! y \<noteq> (0::int))"
proof
  assume "length (filter (\<lambda>v. v \<noteq> 0) col) = length col"
  then have "\<not> length (filter (\<lambda>v. v \<noteq> 0) col) < length col" by simp
  then have "\<forall>v\<in>set col. v \<noteq> 0"
    using length_filter_less [of _ col "\<lambda>v. v \<noteq> 0"] by blast
  then show "\<forall>y<length col. col ! y \<noteq> 0" by simp
next
  assume "\<forall>y<length col. col ! y \<noteq> 0"
  then have "\<forall>v\<in>set col. v \<noteq> 0" by (auto simp: in_set_conv_nth)
  then show "length (filter (\<lambda>v. v \<noteq> 0) col) = length col" by simp
qed

lemma col_full_count:
  "wf_grid g \<Longrightarrow> x < GRID_COLS \<Longrightarrow>
     col_full g x \<longleftrightarrow> length (filter (\<lambda>v. v \<noteq> 0) (g ! x)) = GRID_ROWS"
  using all_nonzero_iff [of "g ! x"] by (simp add: col_full_iff wf_grid_col)

lemma col_full_collapse:
  assumes "wf_grid g" "x < GRID_COLS"
  shows "col_full (map collapse g) x \<longleftrightarrow> col_full g x"
  using assms col_full_count [of "map collapse g" x] col_full_count [of g x]
  by (simp add: wf_map_collapse wf_grid_length filter_collapse)

lemma no_full_col_lines_cleared:
  assumes "wf_grid g" "x < GRID_COLS"
  shows "\<not> col_full (lines_cleared g) x"
proof (cases "x \<in> set (full_cols (rows_cleared g))")
  case True
  then have "lines_cleared g ! x = replicate GRID_ROWS 0"
    using assms by (simp add: lines_cleared_def fold_zero_col_nth wf_rows_cleared wf_grid_length)
  then show ?thesis using GRID_ROWS_pos by (auto simp: col_full_iff)
next
  case False
  then have "lines_cleared g ! x = rows_cleared g ! x"
    using assms by (simp add: lines_cleared_def fold_zero_col_nth wf_rows_cleared wf_grid_length)
  moreover have "\<not> col_full (rows_cleared g) x"
    using False assms by (simp add: full_cols_def)
  ultimately show ?thesis by (simp add: col_full_iff)
qed

lemma collapse_zero_column: "collapse (replicate GRID_ROWS 0) = replicate GRID_ROWS 0"
  by (simp add: collapse_def)

section \<open>Properties of \<^verbatim>\<open>clear_full_lines\<close>\<close>

lemma rows_cleared_nothing: "full_rows g = [] \<Longrightarrow> rows_cleared g = g"
  by (simp add: rows_cleared_def)

lemma lines_cleared_nothing:
  "full_rows g = [] \<Longrightarrow> full_cols g = [] \<Longrightarrow> lines_cleared g = g"
  by (simp add: lines_cleared_def rows_cleared_nothing)

lemma clear_returns: "wf_grid g \<Longrightarrow> \<exists>cleared g'. clear_full_lines g = Some (cleared, g')"
  by (simp add: clear_full_lines_wf)

text \<open>
  The columns are scanned on the grid the row clearing left: when some row was full,
  no column counts, whatever the grid held before the call.
\<close>

lemma columns_scanned_after_row_clear:
  assumes "wf_grid g" "full_rows g \<noteq> []"
  shows "clear_full_lines g = Some (int (length (full_rows g)), map collapse (rows_cleared g))"
  using assms
  by (simp add: clear_full_lines_wf no_full_col_after_row_clear lines_cleared_def)

lemma after_clear_full_lines:
  assumes "wf_grid g" "clear_full_lines g = Some (cleared, g')"
  shows "wf_grid g'" and "\<And>x. x < GRID_COLS \<Longrightarrow> \<not> col_full g' x"
    and "full_rows g = [] \<Longrightarrow> full_rows g' = []"
proof -
  let ?l = "lines_cleared g"
  have g': "g' = (if full_rows g = [] \<and> full_cols (rows_cleared g) = [] then ?l
                  else map collapse ?l)"
    using assms by (simp add: clear_full_lines_wf)
  have wfl: "wf_grid ?l" using assms(1) by (rule wf_lines_cleared)
  show "wf_grid g'"
    using wfl by (simp add: g' wf_map_collapse)
  show "\<not> col_full g' x" if "x < GRID_COLS" for x
    using that assms(1) wfl no_full_col_lines_cleared [of g x]
    by (simp add: g' col_full_collapse)
  show "full_rows g' = []" if rows: "full_rows g = []"
  proof (cases "full_cols (rows_cleared g) = []")
    case True
    then show ?thesis
      using rows by (simp add: g' lines_cleared_def rows_cleared_nothing)
  next
    case False
    then obtain x0 where x0: "x0 \<in> set (full_cols (rows_cleared g))"
      by (cases "full_cols (rows_cleared g)") auto
    then have x0c: "x0 < GRID_COLS" by (simp add: full_cols_def)
    have "?l ! x0 = replicate GRID_ROWS 0"
      using x0 x0c assms(1)
      by (simp add: lines_cleared_def fold_zero_col_nth wf_rows_cleared wf_grid_length)
    then have "g' ! x0 = replicate GRID_ROWS 0"
      using False x0c wfl by (simp add: g' wf_grid_length collapse_zero_column)
    then have "\<not> row_full g' y" if "y < GRID_ROWS" for y
      using that x0c by (auto simp: row_full_iff)
    then show ?thesis by (simp add: full_rows_empty_iff)
  qed
qed

text \<open>The clearing step leaves no full row: a cell that is 0 stays 0.\<close>

lemma rows_cleared_nth:
  assumes "wf_grid g" "x < GRID_COLS" "y < GRID_ROWS"
  shows "rows_cleared g ! x ! y = (if row_full g y then 0 else g ! x ! y)"
  using assms
  by (simp add: rows_cleared_def fold_zero_row_nth wf_grid_length wf_grid_col full_rows_def)

lemma lines_cleared_zero:
  assumes "wf_grid g" "x < GRID_COLS" "y < GRID_ROWS" "rows_cleared g ! x ! y = 0"
  shows "lines_cleared g ! x ! y = 0"
  using assms
  by (simp add: lines_cleared_def fold_zero_col_nth wf_rows_cleared wf_grid_length)

lemma no_full_row_lines_cleared:
  assumes "wf_grid g" "y < GRID_ROWS"
  shows "\<not> row_full (lines_cleared g) y"
proof -
  have "\<exists>x<GRID_COLS. rows_cleared g ! x ! y = 0"
  proof (cases "row_full g y")
    case True
    then have "rows_cleared g ! 0 ! y = 0"
      using assms GRID_COLS_pos by (simp add: rows_cleared_nth)
    then show ?thesis using GRID_COLS_pos by blast
  next
    case False
    then obtain x where x: "x < GRID_COLS" "g ! x ! y = 0"
      by (auto simp: row_full_iff)
    then have "rows_cleared g ! x ! y = 0"
      using assms False by (simp add: rows_cleared_nth)
    then show ?thesis using x(1) by blast
  qed
  then obtain x where "x < GRID_COLS" "lines_cleared g ! x ! y = 0"
    using assms lines_cleared_zero by blast
  then show ?thesis by (auto simp: row_full_iff)
qed

lemma clear_full_lines_result:
  assumes "wf_grid g"
  shows "\<exists>clears g'. clear_full_lines g = Some (clears, g') \<and> 0 \<le> clears \<and> wf_grid g'"
proof -
  obtain clears g' where c: "clear_full_lines g = Some (clears, g')"
    using clear_returns [OF assms] by blast
  moreover have "0 \<le> clears" using c assms by (auto simp: clear_full_lines_wf)
  moreover have "wf_grid g'" using after_clear_full_lines(1) [OF assms c] .
  ultimately show ?thesis by blast
qed

subsection \<open>Evaluations on the concrete boards\<close>

lemma wf_stagger: "wf_grid stagger_grid"
  by code_simp

lemma wf_stagger_cleared: "wf_grid stagger_cleared"
  by code_simp

lemma stagger_cleared_rows: "full_rows stagger_cleared = []"
  by code_simp

lemma stagger_cleared_cols: "full_cols stagger_cleared = []"
  by code_simp

lemma clear_stagger: "clear_full_lines stagger_grid = Some (1, bottom_row_grid)"
  by code_simp

lemma stagger_lines_only: "clear_lines_only stagger_grid = Some (stagger_cleared, 1)"
  by code_simp

lemma stagger_cleared_lines_only: "clear_lines_only stagger_cleared = Some (stagger_cleared, 0)"
  by code_simp

lemma stagger_gravity: "gravity_collapse stagger_cleared = Some bottom_row_grid"
  by code_simp

lemma bottom_row_full: "row_full bottom_row_grid 9"
  by code_simp

lemma clear_bottom_row: "clear_full_lines bottom_row_grid = Some (1, empty_grid)"
  by code_simp

lemma wf_column: "wf_grid column_grid"
  by code_simp

lemma column_rows: "full_rows column_grid = []"
  by code_simp

lemma clear_column: "clear_full_lines column_grid = Some (1, column_settled)"
  by code_simp

subsection \<open>Row and column completed together\<close>

text \<open>
  C1 (the code departs from the property). The property says that rows and columns are
  both judged on the grid as it was before any clearing, so that a board with exactly
  one full row and one full column that cross makes \<^verbatim>\<open>clear_full_lines\<close> return 2.
  The method scans the columns only after it has zeroed the full rows. On
  \<open>cross_grid\<close>, where row 9 and column 0 are the full lines, it returns 1: row 9 is
  cleared, column 0 has lost its cell (0, 9) by then and is not found full, and its
  nine remaining cells stay on the board.
\<close>

theorem cross_clear_counts_one_line:
  "wf_grid cross_grid \<and> full_rows cross_grid = [9] \<and> full_cols cross_grid = [0]
   \<and> clear_full_lines cross_grid = Some (1, cross_cleared)"
  by code_simp

subsection \<open>No full line after a call\<close>

text \<open>
  C2 (amended). The property as stated, that after \<^verbatim>\<open>clear_full_lines\<close> returns no row
  and no column of the grid is full, fails in one way only: the gravity collapse that
  follows a clearing can line cells up into a new full row, which the call leaves in
  place. What holds for every board: the clearing step (full rows zeroed, then full
  columns, before the collapse) leaves a grid \<open>g2\<close> with no full row and no full
  column, and \<open>g2\<close> is the grid the call leaves when it cleared nothing. When it cleared
  something the call leaves the collapse of \<open>g2\<close>, in which no column is full and the
  top row is not full, and in which no row at all is full provided no row was full
  when the call started.
\<close>

theorem no_full_line_after_clearing:
  assumes "wf_grid g"
  shows "\<exists>g2 cleared g'.
           clear_lines_only g = Some (g2, cleared) \<and> clear_full_lines g = Some (cleared, g')
           \<and> wf_grid g2 \<and> wf_grid g'
           \<and> (\<forall>y<GRID_ROWS. \<not> row_full g2 y) \<and> (\<forall>x<GRID_COLS. \<not> col_full g2 x)
           \<and> (cleared = 0 \<longrightarrow> g' = g2)
           \<and> (0 < cleared \<longrightarrow> gravity_collapse g2 = Some g')
           \<and> (\<forall>x<GRID_COLS. \<not> col_full g' x) \<and> \<not> row_full g' 0
           \<and> ((\<forall>y<GRID_ROWS. \<not> row_full g y) \<longrightarrow> (\<forall>y<GRID_ROWS. \<not> row_full g' y))"
proof -
  let ?g2 = "lines_cleared g"
  let ?c = "int (length (full_rows g)) + int (length (full_cols (rows_cleared g)))"
  have l: "clear_lines_only g = Some (?g2, ?c)"
    using assms by (rule clear_lines_only_wf)
  obtain cleared g' where c: "clear_full_lines g = Some (cleared, g')"
    using clear_returns [OF assms] by blast
  have cl: "cleared = ?c"
    using c assms by (simp add: clear_full_lines_wf)
  have wf2: "wf_grid ?g2" using assms by (rule wf_lines_cleared)
  have g': "g' = (if 0 < ?c then map collapse ?g2 else ?g2)"
    using c l wf2 by (simp add: clear_full_lines_def gravity_collapse_wf split: if_splits)
  have grav: "gravity_collapse ?g2 = Some g'" if "0 < cleared"
    using that wf2 g' cl by (simp add: gravity_collapse_wf)
  have same: "g' = ?g2" if "cleared = 0"
    using that g' cl by simp
  note a = after_clear_full_lines [OF assms c]
  have top: "\<not> row_full g' 0"
  proof (cases "0 < ?c")
    case False
    then show ?thesis
      using g' no_full_row_lines_cleared [OF assms GRID_ROWS_pos] by simp
  next
    case True
    have "\<not> col_full ?g2 0"
      using no_full_col_lines_cleared [OF assms GRID_COLS_pos] .
    then have "length (filter (\<lambda>v. v \<noteq> 0) (?g2 ! 0)) \<noteq> GRID_ROWS"
      using col_full_count [OF wf2 GRID_COLS_pos] by simp
    moreover have "length (filter (\<lambda>v. v \<noteq> 0) (?g2 ! 0)) \<le> GRID_ROWS"
      using length_filter_le [of "\<lambda>v. v \<noteq> 0" "?g2 ! 0"] wf_grid_col [OF wf2 GRID_COLS_pos]
      by simp
    ultimately have "collapse (?g2 ! 0) ! 0 = 0"
      by (simp add: collapse_def nth_append)
    then have "g' ! 0 ! 0 = 0"
      using True g' wf2 GRID_COLS_pos by (simp add: wf_grid_length)
    then show ?thesis
      using GRID_COLS_pos by (auto simp: row_full_iff)
  qed
  show ?thesis
    using l c cl wf2 a grav same top no_full_row_lines_cleared [OF assms]
      no_full_col_lines_cleared [OF assms]
    by (auto simp: full_rows_empty_iff)
qed

text \<open>
  On \<open>stagger_grid\<close> the clearing step leaves \<open>stagger_cleared\<close>, with no full line;
  on \<open>column_grid\<close> (column 3 full, no row full) the call leaves a board with no full
  line at all; on \<open>stagger_cleared\<close> nothing is cleared and the board is returned as
  it was.
\<close>

theorem no_full_line_after_clearing_witness:
  "wf_grid stagger_grid \<and> clear_lines_only stagger_grid = Some (stagger_cleared, 1)
   \<and> full_rows stagger_cleared = [] \<and> full_cols stagger_cleared = []
   \<and> clear_full_lines stagger_grid = Some (1, bottom_row_grid)
   \<and> full_cols bottom_row_grid = [] \<and> \<not> row_full bottom_row_grid 0
   \<and> wf_grid column_grid \<and> full_rows column_grid = []
   \<and> clear_full_lines column_grid = Some (1, column_settled)
   \<and> full_cols column_settled = [] \<and> full_rows column_settled = []
   \<and> wf_grid stagger_cleared \<and> clear_full_lines stagger_cleared = Some (0, stagger_cleared)"
proof -
  have a: "clear_full_lines stagger_grid = Some (1, bottom_row_grid)
           \<and> full_rows stagger_cleared = [] \<and> full_cols stagger_cleared = []
           \<and> full_cols bottom_row_grid = [] \<and> \<not> row_full bottom_row_grid 0"
    using no_full_line_after_clearing [OF wf_stagger] stagger_lines_only clear_stagger
    by (auto simp: full_rows_empty_iff full_cols_empty_iff)
  have b: "full_cols column_settled = [] \<and> full_rows column_settled = []"
    using no_full_line_after_clearing [OF wf_column] column_rows clear_column
    by (auto simp: full_rows_empty_iff full_cols_empty_iff)
  have c: "clear_full_lines stagger_cleared = Some (0, stagger_cleared)"
    using no_full_line_after_clearing [OF wf_stagger_cleared] stagger_cleared_lines_only
    by auto
  show ?thesis
    using a b c wf_stagger wf_column wf_stagger_cleared stagger_lines_only column_rows clear_column
    by simp
qed

text \<open>
  The property as stated fails on \<open>stagger_grid\<close>: the call clears row 9, the ten
  cells above it fall into row 9, and the call returns with row 9 full.
\<close>

theorem full_row_after_clear_counterexample:
  "wf_grid stagger_grid \<and> clear_full_lines stagger_grid = Some (1, bottom_row_grid)
   \<and> 9 < GRID_ROWS \<and> row_full bottom_row_grid 9"
  using wf_stagger clear_stagger bottom_row_full by (simp add: GRID_ROWS_def)

subsection \<open>Calling the method twice\<close>

text \<open>
  C3 (amended). The property as stated, that a second call of \<^verbatim>\<open>clear_full_lines\<close>
  right after a first one returns 0, fails when the first call cleared a row and its
  gravity collapse completed another. What holds for every board: the second call finds
  no full column and returns the number of full rows the first call left; it returns 0
  and leaves the grid as it is whenever no row was full before the first call.
\<close>

theorem second_clear_after_rowless_clear:
  assumes "wf_grid g" "clear_full_lines g = Some (cleared, g')"
  shows "\<exists>cleared2 g''. clear_full_lines g' = Some (cleared2, g'')
           \<and> cleared2 = int (length (full_rows g'))
           \<and> ((\<forall>y<GRID_ROWS. \<not> row_full g y) \<longrightarrow> cleared2 = 0 \<and> g'' = g')"
proof -
  note a = after_clear_full_lines [OF assms]
  have cols: "full_cols (rows_cleared g') = []"
  proof (cases "full_rows g' = []")
    case True
    then show ?thesis using a(2) by (simp add: rows_cleared_nothing full_cols_empty_iff)
  next
    case False
    then show ?thesis using a(1) by (simp add: no_full_col_after_row_clear)
  qed
  have "full_rows g' = []" if "\<forall>y<GRID_ROWS. \<not> row_full g y"
    using that a(3) by (simp add: full_rows_empty_iff)
  then show ?thesis
    using a(1) cols by (auto simp: clear_full_lines_wf lines_cleared_def rows_cleared_nothing)
qed

text \<open>
  On \<open>column_grid\<close> no row is full; the first call returns 1 (column 3) and the second
  call returns 0 and changes nothing.
\<close>

theorem second_clear_after_rowless_clear_witness:
  "wf_grid column_grid \<and> full_rows column_grid = []
   \<and> clear_full_lines column_grid = Some (1, column_settled)
   \<and> clear_full_lines column_settled = Some (0, column_settled)"
  using second_clear_after_rowless_clear [OF wf_column clear_column]
    wf_column column_rows clear_column
  by (auto simp: full_rows_empty_iff)

text \<open>
  The property as stated fails on \<open>stagger_grid\<close>: the first call returns 1 and leaves
  \<open>bottom_row_grid\<close>, on which the second call returns 1 again.
\<close>

theorem second_clear_counterexample:
  "wf_grid stagger_grid \<and> clear_full_lines stagger_grid = Some (1, bottom_row_grid)
   \<and> clear_full_lines bottom_row_grid = Some (1, empty_grid)"
  using wf_stagger clear_stagger clear_bottom_row by simp

subsection \<open>Gravity keeps the cells of every column\<close>

text \<open>
  C9. For every column of the grid, the gravity collapse at the end of
  \<^verbatim>\<open>clear_full_lines\<close> keeps the nonzero cells of that column: with \<open>g2\<close> the grid after
  the row and column clearing and \<open>g3\<close> the grid the collapse makes of it (the grid the
  method leaves when \<^verbatim>\<open>cleared > 0\<close>), column \<open>x\<close> of \<open>g3\<close> has the same length, the same
  nonzero cells in the same order, hence the same multiset and the same number of them,
  as column \<open>x\<close> of \<open>g2\<close>.
\<close>

theorem gravity_preserves_column_cells:
  assumes "wf_grid g" "x < GRID_COLS"
  shows "\<exists>g2 cleared g3.
           clear_lines_only g = Some (g2, cleared) \<and> gravity_collapse g2 = Some g3
           \<and> clear_full_lines g = Some (cleared, if 0 < cleared then g3 else g2)
           \<and> length (g3 ! x) = length (g2 ! x)
           \<and> nonzero_cells (g3 ! x) = nonzero_cells (g2 ! x)
           \<and> mset (nonzero_cells (g3 ! x)) = mset (nonzero_cells (g2 ! x))
           \<and> length (nonzero_cells (g3 ! x)) = length (nonzero_cells (g2 ! x))"
proof -
  let ?g2 = "lines_cleared g"
  have wf2: "wf_grid ?g2" using assms(1) by (rule wf_lines_cleared)
  have g3: "gravity_collapse ?g2 = Some (map collapse ?g2)"
    using wf2 by (rule gravity_collapse_wf)
  have nz: "nonzero_cells (map collapse ?g2 ! x) = nonzero_cells (?g2 ! x)"
    using wf2 assms(2) by (simp add: nonzero_cells_def wf_grid_length filter_collapse)
  have len: "length (map collapse ?g2 ! x) = length (?g2 ! x)"
    using wf2 assms(2) by (simp add: wf_grid_length wf_grid_col length_collapse)
  show ?thesis
    using assms(1) g3 nz len
    by (simp add: clear_lines_only_wf clear_full_lines_def)
qed

text \<open>
  On \<open>stagger_grid\<close> the clearing leaves \<open>stagger_cleared\<close>, the collapse turns it into
  \<open>bottom_row_grid\<close>, and column 4 keeps its one cell.
\<close>

theorem gravity_preserves_column_cells_witness:
  "wf_grid stagger_grid \<and> 4 < GRID_COLS
   \<and> clear_lines_only stagger_grid = Some (stagger_cleared, 1)
   \<and> gravity_collapse stagger_cleared = Some bottom_row_grid
   \<and> clear_full_lines stagger_grid = Some (1, bottom_row_grid)
   \<and> nonzero_cells (bottom_row_grid ! 4) = nonzero_cells (stagger_cleared ! 4)
   \<and> mset (nonzero_cells (bottom_row_grid ! 4)) = mset (nonzero_cells (stagger_cleared ! 4))"
proof -
  have c: "4 < GRID_COLS" by (simp add: GRID_COLS_def)
  show ?thesis
    using gravity_preserves_column_cells [OF wf_stagger c] wf_stagger c stagger_lines_only
      stagger_gravity
    by auto
qed

subsection \<open>Nothing to clear\<close>

text \<open>
  C10. For every board state in which no row and no column is full,
  \<^verbatim>\<open>clear_full_lines\<close> returns 0 and leaves every cell of the grid unchanged: no
  gravity collapse is applied when nothing was cleared.
\<close>

theorem clear_full_lines_nothing_full:
  assumes "wf_grid g"
    and "\<forall>y<GRID_ROWS. \<not> row_full g y"
    and "\<forall>x<GRID_COLS. \<not> col_full g x"
  shows "clear_full_lines g = Some (0, g)"
proof -
  have "full_rows g = []" "full_cols g = []"
    using assms by (simp_all add: full_rows_empty_iff full_cols_empty_iff)
  then show ?thesis
    using assms(1) by (simp add: clear_full_lines_wf rows_cleared_nothing lines_cleared_nothing)
qed

text \<open>
  \<open>stagger_cleared\<close> has cells floating in rows 7 and 8 above empty cells and no full
  line; the call returns 0 and the cells stay where they are.
\<close>

theorem clear_full_lines_nothing_full_witness:
  "wf_grid stagger_cleared \<and> full_rows stagger_cleared = [] \<and> full_cols stagger_cleared = []
   \<and> clear_full_lines stagger_cleared = Some (0, stagger_cleared)"
  using clear_full_lines_nothing_full [of stagger_cleared]
    wf_stagger_cleared stagger_cleared_rows stagger_cleared_cols
  by (simp add: full_rows_empty_iff full_cols_empty_iff)

section \<open>Properties of \<^verbatim>\<open>can_place_piece\<close>\<close>

lemma cells_free_iff:
  "cells_free g p x y \<longleftrightarrow>
     (\<forall>py<length p. \<forall>px<length (p ! 0).
        p ! py ! px \<noteq> 0 \<longrightarrow> g ! nat (x + int px) ! nat (y + int py) = 0)"
  unfolding cells_free_def list_all_iff set_upt atLeastLessThan_iff Ball_def
  by simp

lemma wf_piece_first: "wf_piece p \<Longrightarrow> nth_opt p 0 = Some (p ! 0)"
  by (simp add: wf_piece_def nth_opt_def)

lemma wf_piece_row: "wf_piece p \<Longrightarrow> py < length p \<Longrightarrow> length (p ! py) = length (p ! 0)"
  unfolding wf_piece_def list_all_length by blast

lemma cell_collides_wf:
  assumes "wf_grid g" "wf_piece p" "in_bounds p x y" "px < length (p ! 0)" "py < length p"
  shows "cell_collides g p x y px py
         = Some (p ! py ! px \<noteq> 0 \<and> g ! nat (x + int px) ! nat (y + int py) \<noteq> 0)"
proof -
  have "nat (x + int px) < GRID_COLS" "nat (y + int py) < GRID_ROWS"
    using assms(3-5) unfolding in_bounds_def by linarith+
  then show ?thesis
    using assms by (simp add: cell_collides_def nth_opt_def wf_piece_row grid_get_wf)
qed

lemma can_place_piece_wf:
  assumes "wf_grid g" "wf_piece p"
  shows "can_place_piece g p x y = Some (in_bounds p x y \<and> cells_free g p x y)"
proof (cases "in_bounds p x y")
  case False
  then show ?thesis
    using assms by (auto simp: can_place_piece_def wf_piece_first in_bounds_def Let_def)
next
  case True
  let ?Q = "\<lambda>px py. p ! py ! px \<noteq> 0 \<and> g ! nat (x + int px) ! nat (y + int py) \<noteq> 0"
  have inner: "any_opt (cell_collides g p x y px) [0..<length p]
               = Some (\<exists>py\<in>set [0..<length p]. ?Q px py)" if "px < length (p ! 0)" for px
    by (rule any_opt_total) (use assms True that in \<open>simp add: cell_collides_wf\<close>)
  have "any_opt (\<lambda>px. any_opt (cell_collides g p x y px) [0..<length p]) [0..<length (p ! 0)]
        = Some (\<exists>px\<in>set [0..<length (p ! 0)]. \<exists>py\<in>set [0..<length p]. ?Q px py)"
    by (rule any_opt_total) (simp add: inner)
  moreover have "(\<not> (\<exists>px\<in>set [0..<length (p ! 0)]. \<exists>py\<in>set [0..<length p]. ?Q px py))
                 \<longleftrightarrow> cells_free g p x y"
  proof -
    have "(\<exists>px\<in>set [0..<length (p ! 0)]. \<exists>py\<in>set [0..<length p]. ?Q px py)
          \<longleftrightarrow> (\<exists>py<length p. \<exists>px<length (p ! 0). ?Q px py)"
      unfolding bex_upt by blast
    then show ?thesis
      unfolding cells_free_iff by blast
  qed
  ultimately show ?thesis
    using assms True
    by (simp add: can_place_piece_def wf_piece_first in_bounds_def Let_def)
qed

lemma can_place_piece_cases:
  "wf_grid g \<Longrightarrow> wf_piece p \<Longrightarrow>
     can_place_piece g p x y = Some True \<or> can_place_piece g p x y = Some False"
  by (simp add: can_place_piece_wf)

lemma catalogue_pieces_wf: "list_all wf_piece PIECES"
  by code_simp

lemma wf_t_piece: "wf_piece t_piece"
  by code_simp

lemma t_fits: "in_bounds t_piece 0 5 \<and> cells_free stagger_grid t_piece 0 5"
  by code_simp

lemma t_collides: "in_bounds t_piece 0 7 \<and> \<not> cells_free stagger_grid t_piece 0 7"
  by code_simp

lemma t_outside: "\<not> in_bounds t_piece 8 5"
  by code_simp

text \<open>
  C4. For every shape (a non-empty rectangular matrix \<open>p\<close>, of height \<open>length p\<close> and
  width \<open>length (p ! 0)\<close>) and every integer anchor \<open>(x, y)\<close>,
  \<^verbatim>\<open>can_place_piece\<close> returns true if and only if the bounding box of the shape lies
  within the grid at that anchor and every occupied cell of the shape lies over a grid
  cell holding 0. The method assigns to no field: it is embedded as a function of the
  grid that returns the flag alone, so the grid after the call is the grid before it.
\<close>

theorem can_place_piece_iff:
  assumes "wf_grid g" "wf_piece p"
  shows "can_place_piece g p x y
         = Some (0 \<le> x \<and> 0 \<le> y \<and> x + int (length (p ! 0)) \<le> int GRID_COLS
                 \<and> y + int (length p) \<le> int GRID_ROWS
                 \<and> (\<forall>py<length p. \<forall>px<length (p ! 0).
                       p ! py ! px \<noteq> 0 \<longrightarrow> g ! nat (x + int px) ! nat (y + int py) = 0))"
  using assms by (simp add: can_place_piece_wf in_bounds_def cells_free_iff)

text \<open>
  The T piece on \<open>stagger_grid\<close>: it fits at (0, 5); at (0, 7) its middle cell meets
  the cell at (1, 7); at (8, 5) its three columns do not fit in columns 8 and 9.
\<close>

theorem can_place_piece_iff_witness:
  "wf_grid stagger_grid \<and> wf_piece t_piece
   \<and> can_place_piece stagger_grid t_piece 0 5 = Some True
   \<and> can_place_piece stagger_grid t_piece 0 7 = Some False
   \<and> can_place_piece stagger_grid t_piece 8 5 = Some False"
proof -
  have "can_place_piece stagger_grid t_piece x y
        = Some (in_bounds t_piece x y \<and> cells_free stagger_grid t_piece x y)" for x y
    using can_place_piece_iff [OF wf_stagger wf_t_piece, of x y]
    by (simp add: in_bounds_def cells_free_iff)
  then show ?thesis
    using wf_stagger wf_t_piece t_fits t_collides t_outside by simp
qed

section \<open>Properties of \<^verbatim>\<open>any_move_exists\<close>\<close>

lemma wf_game_piece: "wf_game s \<Longrightarrow> i < 3 \<Longrightarrow> wf_piece (pieces s ! i)"
  by (simp add: wf_game_def list_all_length)

lemma can_place_piece_total:
  "wf_grid g \<Longrightarrow> wf_piece p \<Longrightarrow>
     can_place_piece g p x y = Some (can_place_piece g p x y = Some True)"
  by (simp add: can_place_piece_wf)

lemma any_valid_for_index_wf:
  assumes "wf_game s" "i < 3"
  shows "any_valid_for_index s i
         = Some (\<not> used s ! i \<and>
                 (\<exists>gx gy. 0 \<le> gx \<and> gx \<le> int GRID_COLS - int (length (pieces s ! i ! 0))
                    \<and> 0 \<le> gy \<and> gy \<le> int GRID_ROWS - int (length (pieces s ! i))
                    \<and> can_place_piece (grid s) (pieces s ! i) gx gy = Some True))"
proof -
  let ?p = "pieces s ! i"
  let ?ok = "\<lambda>gx gy. can_place_piece (grid s) ?p gx gy = Some True"
  let ?nW = "int GRID_COLS - int (length (?p ! 0))"
  let ?nH = "int GRID_ROWS - int (length ?p)"
  have wfp: "wf_piece ?p" using assms by (rule wf_game_piece)
  have wfg: "wf_grid (grid s)" using assms(1) by (simp add: wf_game_def)
  have cp: "can_place_piece (grid s) ?p gx gy = Some (?ok gx gy)" for gx gy
    using wfg wfp by (rule can_place_piece_total)
  have inner: "any_opt (\<lambda>gy. can_place_piece (grid s) ?p (int gx) (int gy)) [0..<nat (?nH + 1)]
               = Some (\<exists>gy\<in>set [0..<nat (?nH + 1)]. ?ok (int gx) (int gy))" for gx
    by (rule any_opt_total) (rule cp)
  have outer: "any_opt (\<lambda>gx. any_opt (\<lambda>gy. can_place_piece (grid s) ?p (int gx) (int gy))
                                     [0..<nat (?nH + 1)]) [0..<nat (?nW + 1)]
               = Some (\<exists>gx\<in>set [0..<nat (?nW + 1)]. \<exists>gy\<in>set [0..<nat (?nH + 1)].
                         ?ok (int gx) (int gy))"
    by (rule any_opt_total) (rule inner)
  have conv: "(\<exists>gx\<in>set [0..<nat (?nW + 1)]. \<exists>gy\<in>set [0..<nat (?nH + 1)]. ?ok (int gx) (int gy))
              \<longleftrightarrow> (\<exists>gx gy. 0 \<le> gx \<and> gx \<le> ?nW \<and> 0 \<le> gy \<and> gy \<le> ?nH \<and> ?ok gx gy)"
  proof -
    have "(\<exists>gx\<in>set [0..<nat (?nW + 1)]. \<exists>gy\<in>set [0..<nat (?nH + 1)]. ?ok (int gx) (int gy))
          \<longleftrightarrow> (\<exists>gx. 0 \<le> gx \<and> gx \<le> ?nW \<and> (\<exists>gy\<in>set [0..<nat (?nH + 1)]. ?ok gx (int gy)))"
      by (rule ex_int_range
            [of ?nW "\<lambda>gx. \<exists>gy\<in>set [0..<nat (?nH + 1)]. ?ok gx (int gy)"])
    also have "\<dots> \<longleftrightarrow> (\<exists>gx. 0 \<le> gx \<and> gx \<le> ?nW
                 \<and> (\<exists>gy. 0 \<le> gy \<and> gy \<le> ?nH \<and> ?ok gx gy))"
      using ex_int_range [of ?nH "\<lambda>gy. ?ok gx gy" for gx] by (simp only:)
    also have "\<dots> \<longleftrightarrow> (\<exists>gx gy. 0 \<le> gx \<and> gx \<le> ?nW \<and> 0 \<le> gy \<and> gy \<le> ?nH \<and> ?ok gx gy)"
      by blast
    finally show ?thesis .
  qed
  have u: "nth_opt (used s) i = Some (used s ! i)" "nth_opt (pieces s) i = Some ?p"
    using assms by (simp_all add: nth_opt_def wf_game_def)
  have first: "nth_opt ?p 0 = Some (?p ! 0)" using wfp by (rule wf_piece_first)
  show ?thesis
  proof (cases "used s ! i")
    case True
    then show ?thesis by (simp add: any_valid_for_index_def u)
  next
    case False
    have "any_valid_for_index s i
          = any_opt (\<lambda>gx. any_opt (\<lambda>gy. can_place_piece (grid s) ?p (int gx) (int gy))
                                     [0..<nat (?nH + 1)]) [0..<nat (?nW + 1)]"
      using False by (simp add: any_valid_for_index_def u first Let_def)
    also have "\<dots> = Some (\<exists>gx gy. 0 \<le> gx \<and> gx \<le> ?nW \<and> 0 \<le> gy \<and> gy \<le> ?nH \<and> ?ok gx gy)"
      unfolding outer conv by (rule refl)
    finally show ?thesis using False by (simp only: simp_thms)
  qed
qed

lemma wf_demo_game: "wf_game demo_game"
  by code_simp

lemma demo_t_fits: "can_place_piece (grid demo_game) (pieces demo_game ! 0) 0 5 = Some True"
  by code_simp

lemma demo_t_collides: "can_place_piece (grid demo_game) (pieces demo_game ! 0) 0 7 = Some False"
  by code_simp

text \<open>
  C5. For every board state and pending set, \<^verbatim>\<open>any_move_exists\<close> returns true if and
  only if some piece \<open>i\<close> of the set with \<^verbatim>\<open>used[i]\<close> false admits an anchor
  \<open>(gx, gy)\<close> with \<open>0 \<le> gx \<le> cols - width\<close> and \<open>0 \<le> gy \<le> rows - height\<close> at which
  \<^verbatim>\<open>can_place_piece\<close> succeeds; a piece whose flag is set never contributes.
\<close>

theorem any_move_exists_iff:
  assumes "wf_game s"
  shows "any_move_exists s
         = Some (\<exists>i<3. \<not> used s ! i \<and>
                 (\<exists>gx gy. 0 \<le> gx \<and> gx \<le> int GRID_COLS - int (length (pieces s ! i ! 0))
                    \<and> 0 \<le> gy \<and> gy \<le> int GRID_ROWS - int (length (pieces s ! i))
                    \<and> can_place_piece (grid s) (pieces s ! i) gx gy = Some True))"
proof -
  let ?P = "\<lambda>i. \<not> used s ! i \<and>
                 (\<exists>gx gy. 0 \<le> gx \<and> gx \<le> int GRID_COLS - int (length (pieces s ! i ! 0))
                    \<and> 0 \<le> gy \<and> gy \<le> int GRID_ROWS - int (length (pieces s ! i))
                    \<and> can_place_piece (grid s) (pieces s ! i) gx gy = Some True)"
  have "any_opt (any_valid_for_index s) [0..<3] = Some (\<exists>i\<in>set [0..<3]. ?P i)"
    by (rule any_opt_total) (use assms in \<open>simp add: any_valid_for_index_wf\<close>)
  moreover have "(\<exists>i\<in>set [0..<3]. ?P i) \<longleftrightarrow> (\<exists>i<3. ?P i)"
    by (rule bex_upt)
  ultimately show ?thesis
    by (simp add: any_move_exists_def)
qed

text \<open>In \<open>demo_game\<close> piece 0 (the T piece, not used) fits at (0, 5).\<close>

theorem any_move_exists_iff_witness:
  "wf_game demo_game \<and> any_move_exists demo_game = Some True"
proof -
  have "\<not> used demo_game ! 0" by (simp add: demo_game_def)
  moreover have "(0::int) \<le> int GRID_COLS - int (length (pieces demo_game ! 0 ! 0))"
    "(5::int) \<le> int GRID_ROWS - int (length (pieces demo_game ! 0))"
    by (simp_all add: demo_game_def t_piece_def GRID_COLS_def GRID_ROWS_def)
  ultimately have "\<exists>i<3. \<not> used demo_game ! i \<and>
          (\<exists>gx gy. 0 \<le> gx \<and> gx \<le> int GRID_COLS - int (length (pieces demo_game ! i ! 0))
             \<and> 0 \<le> gy \<and> gy \<le> int GRID_ROWS - int (length (pieces demo_game ! i))
             \<and> can_place_piece (grid demo_game) (pieces demo_game ! i) gx gy = Some True)"
    using demo_t_fits
    by (intro exI [of _ 0] conjI exI [of _ "0::int"] exI [of _ "5::int"]) simp_all
  then show ?thesis
    using any_move_exists_iff [OF wf_demo_game] wf_demo_game by simp
qed

section \<open>Properties of \<^verbatim>\<open>place_piece\<close>\<close>

subsection \<open>The painting loops\<close>

lemma put_cell_wf:
  assumes "wf_grid (fst st)" "wf_piece p" "in_bounds p gx gy" "px < length (p ! 0)" "py < length p"
  shows "put_cell p gx gy c py px st = Some (paint_cell p gx gy c py px st)
         \<and> wf_grid (fst (paint_cell p gx gy c py px st))"
proof -
  obtain g n where st: "st = (g, n)" by (cases st)
  have b: "nat (gx + int px) < GRID_COLS" "nat (gy + int py) < GRID_ROWS"
    using assms(3-5) unfolding in_bounds_def by linarith+
  have row: "nth_opt p py = Some (p ! py)" "nth_opt (p ! py) px = Some (p ! py ! px)"
    using assms(2,4,5) by (simp_all add: nth_opt_def wf_piece_row)
  show ?thesis
    using assms(1) b
    by (simp add: st put_cell_def paint_cell_def row grid_set_wf wf_grid_update wf_grid_col)
qed

lemma put_row_wf:
  assumes "wf_grid (fst st)" "wf_piece p" "in_bounds p gx gy" "py < length p"
  shows "fold_opt (put_cell p gx gy c py) [0..<length (p ! 0)] st = Some (paint_row p gx gy c py st)
         \<and> wf_grid (fst (paint_row p gx gy c py st))"
  unfolding paint_row_def
  by (rule fold_opt_total [where I = "\<lambda>t. wf_grid (fst t)"])
     (use assms in \<open>simp_all add: put_cell_wf\<close>)

lemma put_piece_wf:
  assumes "wf_grid g" "wf_piece p" "in_bounds p gx gy"
  shows "put_piece g p gx gy c = Some (fold (paint_row p gx gy c) [0..<length p] (g, 0))
         \<and> wf_grid (fst (fold (paint_row p gx gy c) [0..<length p] (g, 0)))"
  unfolding put_piece_def
  by (rule fold_opt_total [where I = "\<lambda>t. wf_grid (fst t)"])
     (use assms in \<open>simp_all add: put_row_wf wf_piece_first\<close>)

lemma snd_fold_paint_cell:
  "snd (fold (paint_cell p gx gy c py) pxs st)
   = snd st + int (length (filter (\<lambda>px. p ! py ! px \<noteq> 0) pxs))"
  by (induction pxs arbitrary: st) (auto simp: paint_cell_def split: prod.splits)

lemma count_by_index:
  "length (filter (\<lambda>i. P (xs ! i)) [0..<length xs]) = length (filter P xs)"
proof -
  have "filter P xs = filter P (map (\<lambda>i. xs ! i) [0..<length xs])"
    by (simp add: map_nth)
  also have "\<dots> = map (\<lambda>i. xs ! i) (filter (\<lambda>i. P (xs ! i)) [0..<length xs])"
    by (simp add: filter_map comp_def)
  finally show ?thesis by simp
qed

lemma snd_paint_row:
  assumes "wf_piece p" "py < length p"
  shows "snd (paint_row p gx gy c py st)
         = snd st + int (length (filter (\<lambda>v. v \<noteq> 0) (p ! py)))"
  using count_by_index [of "\<lambda>v. v \<noteq> 0" "p ! py"] wf_piece_row [OF assms]
  by (simp add: paint_row_def snd_fold_paint_cell)

lemma snd_fold_paint_row:
  assumes "wf_piece p" "\<forall>py\<in>set pys. py < length p"
  shows "snd (fold (paint_row p gx gy c) pys st)
         = snd st + sum_list (map (\<lambda>py. int (length (filter (\<lambda>v. v \<noteq> 0) (p ! py)))) pys)"
  using assms(2)
  by (induction pys arbitrary: st) (simp_all add: snd_paint_row [OF assms(1)])

lemma placed_blocks_count:
  assumes "wf_piece p"
  shows "snd (fold (paint_row p gx gy c) [0..<length p] (g, 0)) = occupied_cells p"
proof -
  have "map (\<lambda>py. int (length (filter (\<lambda>v. v \<noteq> 0) (p ! py)))) [0..<length p]
        = map (\<lambda>row. int (length (filter (\<lambda>v. v \<noteq> 0) row))) (map (\<lambda>py. p ! py) [0..<length p])"
    by simp
  also have "\<dots> = map (\<lambda>row. int (length (filter (\<lambda>v. v \<noteq> 0) row))) p"
    by (simp only: map_nth)
  finally show ?thesis
    using snd_fold_paint_row [OF assms, of "[0..<length p]" gx gy c "(g, 0)"]
    by (simp add: occupied_cells_def)
qed

lemma put_piece_result:
  assumes "wf_grid g" "wf_piece p" "in_bounds p gx gy"
  shows "\<exists>g1. put_piece g p gx gy c = Some (g1, occupied_cells p) \<and> wf_grid g1"
proof -
  let ?r = "fold (paint_row p gx gy c) [0..<length p] (g, 0)"
  have "put_piece g p gx gy c = Some ?r" "wf_grid (fst ?r)"
    using put_piece_wf [OF assms] by simp_all
  moreover have "?r = (fst ?r, occupied_cells p)"
    using placed_blocks_count [OF assms(2), of gx gy c g] by (simp add: prod_eq_iff)
  ultimately show ?thesis by metis
qed

subsection \<open>Rejected and accepted calls\<close>

lemma wf_game_access:
  assumes "wf_game s" "0 \<le> index" "index \<le> 2"
  shows "nth_opt (used s) (nat index) = Some (used s ! nat index)"
    and "nth_opt (pieces s) (nat index) = Some (pieces s ! nat index)"
    and "nth_opt (piece_colors s) (nat index) = Some (piece_colors s ! nat index)"
    and "wf_piece (pieces s ! nat index)"
    and "wf_grid (grid s)"
proof -
  have i: "nat index < 3" using assms(2,3) by linarith
  show "nth_opt (used s) (nat index) = Some (used s ! nat index)"
    "nth_opt (pieces s) (nat index) = Some (pieces s ! nat index)"
    "nth_opt (piece_colors s) (nat index) = Some (piece_colors s ! nat index)"
    using assms(1) i by (simp_all add: nth_opt_def wf_game_def)
  show "wf_piece (pieces s ! nat index)" using assms(1) i by (rule wf_game_piece)
  show "wf_grid (grid s)" using assms(1) by (simp add: wf_game_def)
qed

lemma place_piece_rejects_aux:
  assumes "wf_game s"
    and "index < 0 \<or> index > 2 \<or> used s ! nat index
         \<or> can_place_piece (grid s) (pieces s ! nat index) gx gy = Some False"
  shows "place_piece s index gx gy fresh = Some (False, s)"
proof (cases "index < 0 \<or> index > 2")
  case True
  then show ?thesis by (auto simp: place_piece_def)
next
  case False
  then have r: "0 \<le> index" "index \<le> 2" by simp_all
  note a = wf_game_access [OF assms(1) r]
  from False assms(2)
  have "used s ! nat index \<or> can_place_piece (grid s) (pieces s ! nat index) gx gy = Some False"
    by blast
  then show ?thesis
    using False by (auto simp: place_piece_def a(1,2))
qed

lemma place_piece_accepts:
  assumes "wf_game s" "0 \<le> index" "index \<le> 2" "\<not> used s ! nat index"
    and "can_place_piece (grid s) (pieces s ! nat index) gx gy = Some True"
    and "py_nth PARTICLE_COLORS (piece_colors s ! nat index) = Some pc"
  shows "\<exists>g1 clears g2 s'.
           put_piece (grid s) (pieces s ! nat index) gx gy (piece_colors s ! nat index + 1)
             = Some (g1, occupied_cells (pieces s ! nat index))
           \<and> clear_full_lines g1 = Some (clears, g2) \<and> 0 \<le> clears \<and> wf_grid g2
           \<and> place_piece s index gx gy fresh = Some (True, s')
           \<and> grid s' = g2
           \<and> score s' = score s + occupied_cells (pieces s ! nat index) * SCORE_PER_BLOCK
                         + (if clears > 0 then ROWCOL_CLEAR_BONUS * clears else 0)"
proof -
  let ?p = "pieces s ! nat index"
  note a = wf_game_access [OF assms(1-3)]
  have ib: "in_bounds ?p gx gy"
    using assms(5) can_place_piece_wf [OF a(5) a(4), of gx gy] by simp
  obtain g1 where g1: "put_piece (grid s) ?p gx gy (piece_colors s ! nat index + 1)
                       = Some (g1, occupied_cells ?p)" "wf_grid g1"
    using put_piece_result [OF a(5) a(4) ib] by blast
  obtain clears g2 where c: "clear_full_lines g1 = Some (clears, g2)" "0 \<le> clears" "wf_grid g2"
    using clear_full_lines_result [OF g1(2)] by blast
  have range: "\<not> (index < 0 \<or> index > 2)" using assms(2,3) by simp
  show ?thesis
    using g1 c range assms(4-6)
    by (simp add: place_piece_def a(1-3) Let_def spawn_new_triplet_def)
qed

lemma place_piece_raises:
  assumes "wf_game s" "0 \<le> index" "index \<le> 2" "\<not> used s ! nat index"
    and "can_place_piece (grid s) (pieces s ! nat index) gx gy = Some True"
    and "py_nth PARTICLE_COLORS (piece_colors s ! nat index) = None"
  shows "place_piece s index gx gy fresh = None"
proof -
  let ?p = "pieces s ! nat index"
  note a = wf_game_access [OF assms(1-3)]
  have ib: "in_bounds ?p gx gy"
    using assms(5) can_place_piece_wf [OF a(5) a(4), of gx gy] by simp
  obtain g1 where g1: "put_piece (grid s) ?p gx gy (piece_colors s ! nat index + 1)
                       = Some (g1, occupied_cells ?p)"
    using put_piece_result [OF a(5) a(4) ib] by blast
  have range: "\<not> (index < 0 \<or> index > 2)" using assms(2,3) by simp
  show ?thesis
    using g1 range assms(4-6)
    by (simp add: place_piece_def a(1-3) Let_def)
qed

lemma py_nth_nonneg: "0 \<le> i \<Longrightarrow> i < int (length xs) \<Longrightarrow> py_nth xs i = Some (xs ! nat i)"
  by (simp add: py_nth_def Let_def)

lemma py_nth_wf_colors:
  assumes "wf_colors cs" "i < length cs"
  shows "\<exists>pc. py_nth PARTICLE_COLORS (cs ! i) = Some pc"
proof -
  have "0 \<le> cs ! i \<and> cs ! i < int (length PARTICLE_COLORS)"
    using assms unfolding wf_colors_def list_all_length by blast
  then show ?thesis
    using py_nth_nonneg [of "cs ! i" PARTICLE_COLORS] by blast
qed

lemma place_piece_returns:
  assumes "wf_game s" "wf_colors (piece_colors s)"
  shows "\<exists>r s'. place_piece s index gx gy fresh = Some (r, s')"
proof (cases "index < 0 \<or> index > 2 \<or> used s ! nat index
         \<or> can_place_piece (grid s) (pieces s ! nat index) gx gy = Some False")
  case True
  then show ?thesis using place_piece_rejects_aux [OF assms(1)] by blast
next
  case False
  then have r: "0 \<le> index" "index \<le> 2" "\<not> used s ! nat index" by simp_all
  note a = wf_game_access [OF assms(1) r(1,2)]
  have ok: "can_place_piece (grid s) (pieces s ! nat index) gx gy = Some True"
    using False can_place_piece_cases [OF a(5) a(4), of gx gy] by blast
  have "nat index < length (piece_colors s)"
    using assms(1) r(1,2) by (simp add: wf_game_def)
  then obtain pc where pc: "py_nth PARTICLE_COLORS (piece_colors s ! nat index) = Some pc"
    using py_nth_wf_colors [OF assms(2)] by blast
  show ?thesis
    using place_piece_accepts [OF assms(1) r ok pc, of fresh] by blast
qed

text \<open>
  The shape of the state is an invariant: \<^verbatim>\<open>reset\<close> establishes it and
  \<^verbatim>\<open>place_piece\<close> keeps it, for any triplet of catalogue pieces.
\<close>

lemma wf_game_reset: "wf_triplet fresh \<Longrightarrow> wf_game (reset s fresh)"
  by (simp add: wf_game_def wf_triplet_def reset_def wf_grid_def list_all_length)

lemma wf_game_place_piece:
  assumes "wf_game s" "wf_triplet fresh" "place_piece s index gx gy fresh = Some (r, s')"
  shows "wf_game s'"
proof (cases "index < 0 \<or> index > 2 \<or> used s ! nat index
         \<or> can_place_piece (grid s) (pieces s ! nat index) gx gy = Some False")
  case True
  then show ?thesis
    using assms(1,3) place_piece_rejects_aux [OF assms(1), of index gx gy fresh] by simp
next
  case False
  then have range: "0 \<le> index" "index \<le> 2" and nu: "\<not> used s ! nat index" by simp_all
  note a = wf_game_access [OF assms(1) range]
  have ok: "can_place_piece (grid s) (pieces s ! nat index) gx gy = Some True"
    using False can_place_piece_cases [OF a(5) a(4), of gx gy] by blast
  have ib: "in_bounds (pieces s ! nat index) gx gy"
    using ok can_place_piece_wf [OF a(5) a(4), of gx gy] by simp
  obtain g1 where g1: "put_piece (grid s) (pieces s ! nat index) gx gy (piece_colors s ! nat index + 1)
                       = Some (g1, occupied_cells (pieces s ! nat index))" "wf_grid g1"
    using put_piece_result [OF a(5) a(4) ib] by blast
  obtain clears g2 where c: "clear_full_lines g1 = Some (clears, g2)" "0 \<le> clears" "wf_grid g2"
    using clear_full_lines_result [OF g1(2)] by blast
  obtain pc where pc: "py_nth PARTICLE_COLORS (piece_colors s ! nat index) = Some pc"
    using place_piece_raises [OF assms(1) range nu ok, of fresh] assms(3)
    by (cases "py_nth PARTICLE_COLORS (piece_colors s ! nat index)") simp_all
  show ?thesis
    using assms g1 c range nu ok pc
    by (auto simp: place_piece_def a(1-3) Let_def spawn_new_triplet_def wf_game_def wf_triplet_def
             split: if_splits)
qed

lemma wf_colors_place_piece:
  assumes "wf_game s" "wf_colors (piece_colors s)" "wf_colors (snd fresh)"
    and "place_piece s index gx gy fresh = Some (r, s')"
  shows "wf_colors (piece_colors s')"
proof (cases "index < 0 \<or> index > 2 \<or> used s ! nat index
         \<or> can_place_piece (grid s) (pieces s ! nat index) gx gy = Some False")
  case True
  then show ?thesis
    using assms(2,4) place_piece_rejects_aux [OF assms(1), of index gx gy fresh] by simp
next
  case False
  then have range: "0 \<le> index" "index \<le> 2" and nu: "\<not> used s ! nat index" by simp_all
  note a = wf_game_access [OF assms(1) range]
  have ok: "can_place_piece (grid s) (pieces s ! nat index) gx gy = Some True"
    using False can_place_piece_cases [OF a(5) a(4), of gx gy] by blast
  have ib: "in_bounds (pieces s ! nat index) gx gy"
    using ok can_place_piece_wf [OF a(5) a(4), of gx gy] by simp
  obtain g1 where g1: "put_piece (grid s) (pieces s ! nat index) gx gy (piece_colors s ! nat index + 1)
                       = Some (g1, occupied_cells (pieces s ! nat index))" "wf_grid g1"
    using put_piece_result [OF a(5) a(4) ib] by blast
  obtain clears g2 where c: "clear_full_lines g1 = Some (clears, g2)"
    using clear_full_lines_result [OF g1(2)] by blast
  obtain pc where pc: "py_nth PARTICLE_COLORS (piece_colors s ! nat index) = Some pc"
    using place_piece_raises [OF assms(1) range nu ok, of fresh] assms(4)
    by (cases "py_nth PARTICLE_COLORS (piece_colors s ! nat index)") simp_all
  show ?thesis
    using assms g1 c range nu ok pc
    by (auto simp: place_piece_def a(1-3) Let_def spawn_new_triplet_def split: if_splits)
qed

lemma wf_gap_game: "wf_game gap_game"
  by code_simp

lemma gap_place: "place_piece gap_game 2 0 8 demo_fresh = Some (True, gap_game_after)"
  by code_simp

lemma gap_put:
  "put_piece (grid gap_game) (pieces gap_game ! 2) 0 8 (piece_colors gap_game ! 2 + 1)
   = Some (gap_filled, 4)"
  by code_simp

lemma gap_clear: "clear_full_lines gap_filled = Some (2, empty_grid)"
  by code_simp

lemma square_cells: "occupied_cells (pieces gap_game ! 2) = 4"
  by code_simp

text \<open>
  C7. For every state, if \<^verbatim>\<open>place_piece\<close> is called with a piece index that is out of
  range (below 0 or above 2) or already used, or with an anchor at which
  \<^verbatim>\<open>can_place_piece\<close> fails for that piece, it returns \<^verbatim>\<open>False\<close> to the caller and
  leaves the state (grid, score, pieces, used flags and every other field) unchanged.
\<close>

theorem place_piece_rejects:
  assumes "wf_game s"
    and "index < 0 \<or> index > 2 \<or> used s ! nat index
         \<or> can_place_piece (grid s) (pieces s ! nat index) gx gy = Some False"
  shows "place_piece s index gx gy fresh = Some (False, s)"
  using assms by (rule place_piece_rejects_aux)

text \<open>
  In \<open>demo_game\<close>: index 5 and index -1 are out of range, piece 1 is used, and the
  T piece (index 0) collides at (0, 7).
\<close>

theorem place_piece_rejects_witness:
  "wf_game demo_game
   \<and> place_piece demo_game 5 0 5 demo_fresh = Some (False, demo_game)
   \<and> place_piece demo_game (- 1) 0 5 demo_fresh = Some (False, demo_game)
   \<and> place_piece demo_game 1 0 5 demo_fresh = Some (False, demo_game)
   \<and> place_piece demo_game 0 0 7 demo_fresh = Some (False, demo_game)"
proof -
  have u: "used demo_game ! nat 1" by (simp add: demo_game_def)
  have c: "can_place_piece (grid demo_game) (pieces demo_game ! nat 0) 0 7 = Some False"
    using demo_t_collides by simp
  show ?thesis
    using place_piece_rejects [OF wf_demo_game, of 5 0 5 demo_fresh]
      place_piece_rejects [OF wf_demo_game, of "- 1" 0 5 demo_fresh]
      place_piece_rejects [OF wf_demo_game, of 1 0 5 demo_fresh]
      place_piece_rejects [OF wf_demo_game, of 0 0 7 demo_fresh]
      wf_demo_game u c
    by simp
qed

text \<open>
  C8. For every successful call of \<^verbatim>\<open>place_piece\<close> (it returns \<^verbatim>\<open>True\<close>), the painting
  loop counts exactly the occupied cells of the placed piece, and the score increases
  by that number times \<^verbatim>\<open>SCORE_PER_BLOCK\<close> plus, when \<^verbatim>\<open>clear_full_lines\<close> (run on the
  painted grid) returns \<open>clears > 0\<close>, \<open>clears\<close> times \<^verbatim>\<open>ROWCOL_CLEAR_BONUS\<close>. In
  particular a 4-cell piece adds exactly 40 points before any clear bonus.
\<close>

theorem place_piece_score:
  assumes "wf_game s" "place_piece s index gx gy fresh = Some (True, s')"
  shows "\<exists>g1 clears g2.
           put_piece (grid s) (pieces s ! nat index) gx gy (piece_colors s ! nat index + 1)
             = Some (g1, occupied_cells (pieces s ! nat index))
           \<and> clear_full_lines g1 = Some (clears, g2) \<and> 0 \<le> clears \<and> grid s' = g2
           \<and> score s' = score s + occupied_cells (pieces s ! nat index) * SCORE_PER_BLOCK
                         + (if clears > 0 then clears * ROWCOL_CLEAR_BONUS else 0)
           \<and> (occupied_cells (pieces s ! nat index) = 4 \<longrightarrow>
                score s' = score s + 40 + (if clears > 0 then clears * ROWCOL_CLEAR_BONUS else 0))"
proof -
  have range: "0 \<le> index" "index \<le> 2"
    using assms(2) by (auto simp: place_piece_def split: if_splits)
  note a = wf_game_access [OF assms(1) range]
  have nu: "\<not> used s ! nat index"
    using assms(2) range by (auto simp: place_piece_def a(1) split: if_splits)
  have "can_place_piece (grid s) (pieces s ! nat index) gx gy
        = Some (can_place_piece (grid s) (pieces s ! nat index) gx gy = Some True)"
    using a(5) a(4) by (rule can_place_piece_total)
  then have ok: "can_place_piece (grid s) (pieces s ! nat index) gx gy = Some True"
    using assms(2) range nu
    by (cases "can_place_piece (grid s) (pieces s ! nat index) gx gy = Some True")
       (auto simp: place_piece_def a(1,2))
  obtain pc where pc: "py_nth PARTICLE_COLORS (piece_colors s ! nat index) = Some pc"
    using place_piece_raises [OF assms(1) range nu ok, of fresh] assms(2)
    by (cases "py_nth PARTICLE_COLORS (piece_colors s ! nat index)") simp_all
  show ?thesis
    using place_piece_accepts [OF assms(1) range nu ok pc, of fresh] assms(2)
    by (auto simp: SCORE_PER_BLOCK_def mult.commute)
qed

text \<open>
  In \<open>gap_game\<close> the square piece (4 cells) placed at (0, 8) completes rows 8 and 9:
  the score goes from 0 to 40 + 2 * 50, and the triplet, now all used, is replaced.
\<close>

theorem place_piece_score_witness:
  "wf_game gap_game \<and> place_piece gap_game 2 0 8 demo_fresh = Some (True, gap_game_after)
   \<and> occupied_cells (pieces gap_game ! 2) = 4
   \<and> clear_full_lines gap_filled = Some (2, empty_grid)
   \<and> score gap_game_after = score gap_game + 40 + 2 * ROWCOL_CLEAR_BONUS"
  using place_piece_score [OF wf_gap_game gap_place] wf_gap_game gap_place gap_put gap_clear
    square_cells
  by auto

section \<open>The left-click handler when the game is over\<close>



lemma click_places_when_not_over:
  "mouse_button_down demo_game 1 (100, 440) demo_fresh \<noteq> Some demo_game"
  by code_simp











end
